theory Spec2Isabelle
  imports Main "HOL-Library.AList"
begin

section \<open>JavaScript values\<close>

text \<open>
  The values that props hold. Functions are references (\<open>JFun\<close> with the identity of the
  function object), so that \<^verbatim>\<open>!=\<close> on two of them compares identities as JavaScript
  does; what a referenced function computes is looked up in the environment (\<open>fn_call\<close>
  below). An object is the list of its own enumerable properties in \<^verbatim>\<open>for ... in\<close>
  order. Numbers are restricted to integers.
\<close>

datatype jsval =
    JUndefined
  | JNull
  | JBool bool
  | JNum int
  | JStr string
  | JObj "(string \<times> jsval) list"
  | JFun nat

text \<open>Truthiness, as \<^verbatim>\<open>if (v)\<close> and \<^verbatim>\<open>&&\<close> test it.\<close>

fun truthy :: "jsval \<Rightarrow> bool" where
  "truthy JUndefined = False"
| "truthy JNull = False"
| "truthy (JBool b) = b"
| "truthy (JNum n) = (n \<noteq> 0)"
| "truthy (JStr s) = (s \<noteq> [])"
| "truthy (JObj kvs) = True"
| "truthy (JFun f) = True"

text \<open>\<^verbatim>\<open>v != null\<close> is false exactly for \<^verbatim>\<open>null\<close> and \<^verbatim>\<open>undefined\<close>.\<close>

fun neq_null :: "jsval \<Rightarrow> bool" where
  "neq_null JUndefined = False"
| "neq_null JNull = False"
| "neq_null v = True"

text \<open>\<^verbatim>\<open>obj[name]\<close> on an object given by its own properties: a missing key reads \<^verbatim>\<open>undefined\<close>.\<close>

definition get_prop :: "(string \<times> jsval) list \<Rightarrow> string \<Rightarrow> jsval" where
  "get_prop obj name = (case map_of obj name of None \<Rightarrow> JUndefined | Some v \<Rightarrow> v)"

text \<open>Decimal digits of a natural number, for \<^verbatim>\<open>String(n)\<close> and for the index keys of a string.\<close>

definition digit :: "nat \<Rightarrow> char" where
  "digit d = ''0123456789'' ! d"

function decimal :: "nat \<Rightarrow> string" where
  "decimal n = (if n < 10 then [digit n] else decimal (n div 10) @ [digit (n mod 10)])"
  by pat_completeness auto
termination
  by (relation "measure (\<lambda>n. n)") auto

declare decimal.simps [simp del]

text \<open>
  The properties \<^verbatim>\<open>for (let k in v)\<close> goes over, each with \<^verbatim>\<open>v[k]\<close>: those of an object,
  the indices of a string, none for the other primitives and for a plain function.
\<close>

fun for_in :: "jsval \<Rightarrow> (string \<times> jsval) list" where
  "for_in (JObj kvs) = kvs"
| "for_in (JStr s) = map (\<lambda>i. (decimal i, JStr [s ! i])) [0..<length s]"
| "for_in v = []"

section \<open>Documents, selections, states\<close>

text \<open>
  The classes of prosemirror-model and prosemirror-state, with the members this file
  reads. A resolved position carries its two methods as functions.
\<close>

type_synonym Mark = string
type_synonym dom_node = nat
type_synonym DecorationSet = nat
type_synonym ViewDesc = nat

record Node =
  node_key :: nat
  content_size :: nat

record ResolvedPos =
  pos :: nat
  start :: "nat \<Rightarrow> nat"
  sharedDepth :: "nat \<Rightarrow> nat"

record Selection =
  anchor_r :: ResolvedPos
  sel_head :: nat
  sel_from :: nat
  sel_empty :: bool
  isNodeSelection :: bool

record PluginView =
  pv_key :: nat
  has_update :: bool
  has_destroy :: bool

record Plugin =
  props :: "(string \<times> jsval) list"
  spec_view :: "nat option"

text \<open>
  \<open>plugins_ref\<close> is the identity of the plugins array: \<^verbatim>\<open>!=\<close> on two arrays compares
  identities, not contents.
\<close>

record EditorState =
  doc :: Node
  selection :: Selection
  storedMarks :: "Mark list option"
  plugins :: "Plugin list"
  plugins_ref :: nat
  scrollToSelection :: nat

datatype Decoration =
    Decoration_node nat nat "(string \<times> string) list"
  | Decoration_widget nat dom_node "Mark list"

record CursorWrapper =
  cw_dom :: dom_node
  cw_deco :: Decoration

record Rect =
  left :: int
  right :: int
  top :: int
  bottom :: int

type_synonym ScrollPos = nat

section \<open>The view\<close>

text \<open>
  The fields of \<^verbatim>\<open>EditorView\<close> that the update path reads or writes. \<open>view_props\<close> is
  \<^verbatim>\<open>_props\<close> without its \<^verbatim>\<open>state\<close> member, which is the field \<open>state\<close>.
  \<open>mouseDown\<close> is the truthiness of \<^verbatim>\<open>view.mouseDown\<close>.
\<close>

record EditorView =
  view_props :: "(string \<times> jsval) list"
  state :: EditorState
  editable :: bool
  composing :: bool
  markCursor :: "Mark list option"
  cursorWrapper :: "CursorWrapper option"
  nodeViews :: "(string \<times> jsval) list"
  docView :: ViewDesc
  trackWrites :: "dom_node option"
  mouseDown :: bool
  pluginViews :: "PluginView list"

section \<open>Calls out of index.js\<close>

text \<open>
  Every call that leaves index.js (into the DOM, the mutation observer, or the modules
  viewdesc, selection, input, domcoords and decoration) is an operation. A run records the
  operations it performs, in order.
\<close>

datatype op =
    ClearComposition
  | EnsureListeners
  | CreateElement string
  | SetAttribute dom_node string string
  | ViewDecorations
  | MatchesNode Node "Decoration list" DecorationSet
  | StoreScrollPos
  | ObserverStop
  | ObserverStart
  | GetSelection
  | DocViewUpdate Node "Decoration list" DecorationSet
  | UpdateOuterDeco "Decoration list"
  | DocViewDestroy
  | DocViewDesc Node "Decoration list" DecorationSet
  | CurrentSelectionEq
  | AnchorInRightPlace
  | SelectionToDOM bool
  | SyncNodeSelection
  | SetCurSelection
  | PluginViewDestroy nat
  | PluginViewCreate nat
  | PluginViewUpdate nat
  | SetScrollTop nat
  | HandleScrollToSelection nat
  | DomAfterPos nat
  | GetBoundingClientRect dom_node
  | CoordsAtPos nat
  | ScrollRectIntoView Rect "dom_node option"
  | ResetScrollPos ScrollPos
  | FocusPreventScroll

datatype exn = TypeError | Thrown nat

text \<open>
  The environment of one run: which operation throws (\<open>raises\<close>), and what each one
  returns when it returns. \<open>fn_call\<close> and \<open>fn_text\<close> give, for a function reference, its
  result on a state and its source text (what \<^verbatim>\<open>String\<close> makes of it).
\<close>

record env =
  raises :: "op \<Rightarrow> exn option"
  fn_call :: "nat \<Rightarrow> EditorState \<Rightarrow> jsval"
  fn_text :: "nat \<Rightarrow> string"
  browser_ie :: bool
  browser_chrome :: bool
  overflowAnchor :: "string option"
  sel_eq :: "Selection \<Rightarrow> Selection \<Rightarrow> bool"
  new_element :: dom_node
  viewDecorations_ret :: DecorationSet
  matchesNode_ret :: bool
  storeScrollPos_ret :: ScrollPos
  focusNode_before :: "dom_node option"
  update_ret :: bool
  update_wrote :: bool
  docViewDesc_ret :: ViewDesc
  docViewDesc_wrote :: bool
  currentSelection_eq_ret :: bool
  anchorInRightPlace_ret :: bool
  pluginView_ret :: "nat \<Rightarrow> PluginView"
  focusNode_after :: "dom_node option"
  handler_ret :: "nat \<Rightarrow> jsval"
  domAfterPos_ret :: "nat \<Rightarrow> dom_node"
  boundingRect_ret :: "dom_node \<Rightarrow> Rect"
  coordsAtPos_ret :: "nat \<Rightarrow> Rect"

section \<open>Computations that may throw\<close>

text \<open>
  A computation takes a state and gives a result or a thrown exception, with the state as
  it is at that moment: what was written before a throw stays written.
\<close>

type_synonym ('a, 's) comp = "'s \<Rightarrow> (exn + 'a) \<times> 's"

definition return :: "'a \<Rightarrow> ('a, 's) comp" where
  "return x = (\<lambda>s. (Inr x, s))"

definition throw :: "exn \<Rightarrow> ('a, 's) comp" where
  "throw e = (\<lambda>s. (Inl e, s))"

definition andThen :: "('a, 's) comp \<Rightarrow> ('a \<Rightarrow> ('b, 's) comp) \<Rightarrow> ('b, 's) comp" where
  "andThen m f = (\<lambda>s. case m s of (Inl e, s') \<Rightarrow> (Inl e, s') | (Inr x, s') \<Rightarrow> f x s')"

section \<open>someProp\<close>

text \<open>\<^verbatim>\<open>f ? f(prop) : prop\<close>\<close>

definition apply_f :: "(jsval \<Rightarrow> (jsval, 's) comp) option \<Rightarrow> jsval \<Rightarrow> (jsval, 's) comp" where
  "apply_f f prop = (case f of Some g \<Rightarrow> g prop | None \<Rightarrow> return prop)"

text \<open>The loop over \<^verbatim>\<open>this.state.plugins\<close>; falling off its end returns \<^verbatim>\<open>undefined\<close>.\<close>

fun someProp_plugins ::
  "Plugin list \<Rightarrow> string \<Rightarrow> (jsval \<Rightarrow> (jsval, 's) comp) option \<Rightarrow> (jsval, 's) comp" where
  "someProp_plugins [] propName f s = (Inr JUndefined, s)"
| "someProp_plugins (p # ps) propName f s =
     (let prop = get_prop (props p) propName in
      if neq_null prop then
        andThen (apply_f f prop)
          (\<lambda>value. if truthy value then return value else someProp_plugins ps propName f) s
      else someProp_plugins ps propName f s)"

definition someProp ::
  "EditorView \<Rightarrow> string \<Rightarrow> (jsval \<Rightarrow> (jsval, 's) comp) option \<Rightarrow> (jsval, 's) comp" where
  "someProp view propName f =
     (let prop = get_prop (view_props view) propName in
      if neq_null prop then
        andThen (apply_f f prop)
          (\<lambda>value. if truthy value then return value
                   else someProp_plugins (plugins (state view)) propName f)
      else someProp_plugins (plugins (state view)) propName f)"

section \<open>The attributes of the document node\<close>

text \<open>
  \<^verbatim>\<open>String(v)\<close>, and \<^verbatim>\<open>" " + v\<close>, which converts \<open>v\<close> the same way. Numbers are integers and
  print all their digits, as \<^verbatim>\<open>String\<close> does below 2^53; the documented type of an attribute
  value is a string.
\<close>

fun toString :: "env \<Rightarrow> jsval \<Rightarrow> string" where
  "toString env JUndefined = ''undefined''"
| "toString env JNull = ''null''"
| "toString env (JBool b) = (if b then ''true'' else ''false'')"
| "toString env (JNum n) = (if n < 0 then ''-'' @ decimal (nat (- n)) else decimal (nat n))"
| "toString env (JStr s) = s"
| "toString env (JObj kvs) = ''[object Object]''"
| "toString env (JFun f) = fn_text env f"

text \<open>
  The body of the loop over one registrant's attributes. \<open>attrs\<close> is the object under
  construction, in insertion order; \<^verbatim>\<open>attrs.class\<close> and \<^verbatim>\<open>attrs[attr]\<close> read
  \<^verbatim>\<open>undefined\<close> when the key is missing, and \<^verbatim>\<open>!attrs[attr]\<close> holds for a missing key
  and for the empty string.
\<close>

definition merge_attr :: "env \<Rightarrow> (string \<times> string) list \<Rightarrow> string \<times> jsval \<Rightarrow> (string \<times> string) list" where
  "merge_attr env attrs kv =
     (let attr = fst kv; v = snd kv in
      if attr = ''class'' then
        AList.update ''class''
          ((case map_of attrs ''class'' of None \<Rightarrow> ''undefined'' | Some c \<Rightarrow> c) @ '' '' @ toString env v)
          attrs
      else if (case map_of attrs attr of None \<Rightarrow> True | Some old \<Rightarrow> old = [])
              \<and> attr \<noteq> ''contenteditable'' \<and> attr \<noteq> ''nodeName'' then
        AList.update attr (toString env v) attrs
      else attrs)"

text \<open>The function handed to \<^verbatim>\<open>someProp("attributes", ...)\<close>: it returns nothing.\<close>

definition attributes_callback ::
  "env \<Rightarrow> EditorView \<Rightarrow> jsval \<Rightarrow> (jsval, (string \<times> string) list) comp" where
  "attributes_callback env view value =
     (\<lambda>attrs.
        let value' = (case value of JFun f \<Rightarrow> fn_call env f (state view) | _ \<Rightarrow> value) in
        (Inr JUndefined,
         if truthy value' then foldl (merge_attr env) attrs (for_in value') else attrs))"

definition computeDocDeco_attrs :: "env \<Rightarrow> EditorView \<Rightarrow> (string \<times> string) list" where
  "computeDocDeco_attrs env view =
     snd (someProp view ''attributes'' (Some (attributes_callback env view))
            [(''class'', ''ProseMirror''),
             (''contenteditable'', toString env (JBool (editable view)))])"

definition computeDocDeco :: "env \<Rightarrow> EditorView \<Rightarrow> Decoration list" where
  "computeDocDeco env view =
     [Decoration_node 0 (content_size (doc (state view))) (computeDocDeco_attrs env view)]"

section \<open>Editable flag, node views, selection context\<close>

text \<open>\<^verbatim>\<open>value(view.state)\<close>: calling what is not a function throws a TypeError.\<close>

definition call_fn :: "env \<Rightarrow> jsval \<Rightarrow> EditorState \<Rightarrow> (jsval, 's) comp" where
  "call_fn env value st =
     (case value of JFun f \<Rightarrow> return (fn_call env f st) | _ \<Rightarrow> throw TypeError)"

definition getEditable :: "env \<Rightarrow> EditorView \<Rightarrow> (bool, 's) comp" where
  "getEditable env view =
     andThen
       (someProp view ''editable''
          (Some (\<lambda>value. andThen (call_fn env value (state view))
                            (\<lambda>r. return (JBool (r = JBool False))))))
       (\<lambda>r. return (\<not> truthy r))"

definition selectionContextChanged :: "Selection \<Rightarrow> Selection \<Rightarrow> bool" where
  "selectionContextChanged sel1 sel2 =
     (let depth = min (sharedDepth (anchor_r sel1) (sel_head sel1))
                      (sharedDepth (anchor_r sel2) (sel_head sel2))
      in start (anchor_r sel1) depth \<noteq> start (anchor_r sel2) depth)"

definition buildNodeViews :: "EditorView \<Rightarrow> (string \<times> jsval) list" where
  "buildNodeViews view =
     snd (someProp view ''nodeViews''
            (Some (\<lambda>obj result.
               (Inr JUndefined,
                foldl (\<lambda>res kv. if map_of res (fst kv) = None then res @ [kv] else res)
                  result (for_in obj))))
            [])"

text \<open>
  \<^verbatim>\<open>a != b\<close>: \<^verbatim>\<open>null\<close> and \<^verbatim>\<open>undefined\<close> are equal to each other; function references are
  compared by identity. The conversions between primitives of different types are left out.
\<close>

definition loose_neq :: "jsval \<Rightarrow> jsval \<Rightarrow> bool" where
  "loose_neq a b = (\<not> (a = b \<or> (\<not> neq_null a \<and> \<not> neq_null b)))"

definition changedNodeViews :: "(string \<times> jsval) list \<Rightarrow> (string \<times> jsval) list \<Rightarrow> bool" where
  "changedNodeViews a b =
     (list_ex (\<lambda>kv. loose_neq (get_prop a (fst kv)) (get_prop b (fst kv))) a
      \<or> length a \<noteq> length b)"

section \<open>The running view\<close>

text \<open>A run works on the view and appends to the record of operations performed.\<close>

record machine =
  view :: EditorView
  trace :: "op list"

definition perform :: "env \<Rightarrow> op \<Rightarrow> 'a \<Rightarrow> ('a, machine) comp" where
  "perform env opr r =
     (\<lambda>s. (case raises env opr of Some e \<Rightarrow> Inl e | None \<Rightarrow> Inr r,
           s\<lparr>trace := trace s @ [opr]\<rparr>))"

definition get_view :: "(EditorView, machine) comp" where
  "get_view = (\<lambda>s. (Inr (view s), s))"

definition modify_view :: "(EditorView \<Rightarrow> EditorView) \<Rightarrow> (unit, machine) comp" where
  "modify_view f = (\<lambda>s. (Inr (), s\<lparr>view := f (view s)\<rparr>))"

text \<open>
  Modelled from the spec: \<^verbatim>\<open>clearComposition\<close> of input.js, which is not among the sources.
  It terminates the composition: the view is no longer composing afterwards.
\<close>

definition clearComposition :: "env \<Rightarrow> (unit, machine) comp" where
  "clearComposition env =
     andThen (perform env ClearComposition ())
       (\<lambda>_. modify_view (\<lambda>v. v\<lparr>composing := False\<rparr>))"

definition updateCursorWrapper :: "env \<Rightarrow> (unit, machine) comp" where
  "updateCursorWrapper env =
     andThen get_view (\<lambda>this.
       case markCursor this of
         Some marks \<Rightarrow>
           andThen (perform env (CreateElement ''img'') (new_element env)) (\<lambda>dom.
           andThen (perform env (SetAttribute dom ''mark-placeholder'' ''true'') ()) (\<lambda>_.
           modify_view (\<lambda>v. v\<lparr>cursorWrapper :=
             Some \<lparr>cw_dom = dom,
                   cw_deco = Decoration_widget (sel_head (selection (state v))) dom marks\<rparr>\<rparr>)))
       | None \<Rightarrow> modify_view (\<lambda>v. v\<lparr>cursorWrapper := None\<rparr>))"

section \<open>Plugin views\<close>

text \<open>
  \<^verbatim>\<open>while (view = this.pluginViews.pop()) if (view.destroy) view.destroy()\<close>: the loop
  takes the views from the end of the array.
\<close>

fun destroy_loop :: "env \<Rightarrow> PluginView list \<Rightarrow> (unit, machine) comp" where
  "destroy_loop env [] = return ()"
| "destroy_loop env (pv # rest) =
     andThen (modify_view (\<lambda>v. v\<lparr>pluginViews := butlast (pluginViews v)\<rparr>)) (\<lambda>_.
     andThen (if has_destroy pv then perform env (PluginViewDestroy (pv_key pv)) ()
              else return ()) (\<lambda>_.
     destroy_loop env rest))"

definition destroyPluginViews :: "env \<Rightarrow> (unit, machine) comp" where
  "destroyPluginViews env = andThen get_view (\<lambda>this. destroy_loop env (rev (pluginViews this)))"

fun create_loop :: "env \<Rightarrow> Plugin list \<Rightarrow> (unit, machine) comp" where
  "create_loop env [] = return ()"
| "create_loop env (plugin # rest) =
     andThen (case spec_view plugin of
                Some k \<Rightarrow>
                  andThen (perform env (PluginViewCreate k) (pluginView_ret env k)) (\<lambda>pv.
                  modify_view (\<lambda>v. v\<lparr>pluginViews := pluginViews v @ [pv]\<rparr>))
              | None \<Rightarrow> return ()) (\<lambda>_.
     create_loop env rest)"

fun update_loop :: "env \<Rightarrow> PluginView list \<Rightarrow> (unit, machine) comp" where
  "update_loop env [] = return ()"
| "update_loop env (pluginView # rest) =
     andThen (if has_update pluginView then perform env (PluginViewUpdate (pv_key pluginView)) ()
              else return ()) (\<lambda>_.
     update_loop env rest)"

definition updatePluginViews :: "env \<Rightarrow> EditorState option \<Rightarrow> (unit, machine) comp" where
  "updatePluginViews env prevState =
     andThen get_view (\<lambda>this.
       if (case prevState of None \<Rightarrow> True
           | Some prev \<Rightarrow> plugins_ref prev \<noteq> plugins_ref (state this)) then
         andThen (destroyPluginViews env) (\<lambda>_. create_loop env (plugins (state this)))
       else update_loop env (pluginViews this))"

section \<open>Applying a state\<close>

text \<open>
  \<^verbatim>\<open>this.docView.update(...)\<close> and \<^verbatim>\<open>docViewDesc(...)\<close> of viewdesc.js. While they
  write to the DOM they reset \<^verbatim>\<open>view.trackWrites\<close> when they write to the node it holds;
  whether they do is given by the environment.
\<close>

definition patch_docView ::
  "env \<Rightarrow> Node \<Rightarrow> Decoration list \<Rightarrow> DecorationSet \<Rightarrow> (bool, machine) comp" where
  "patch_docView env d outerDeco innerDeco =
     andThen (perform env (DocViewUpdate d outerDeco innerDeco) (update_ret env)) (\<lambda>ok.
     andThen (if update_wrote env then modify_view (\<lambda>v. v\<lparr>trackWrites := None\<rparr>)
              else return ()) (\<lambda>_.
     return ok))"

definition docViewDesc ::
  "env \<Rightarrow> Node \<Rightarrow> Decoration list \<Rightarrow> DecorationSet \<Rightarrow> (ViewDesc, machine) comp" where
  "docViewDesc env d outerDeco innerDeco =
     andThen (perform env (DocViewDesc d outerDeco innerDeco) (docViewDesc_ret env)) (\<lambda>desc.
     andThen (if docViewDesc_wrote env then modify_view (\<lambda>v. v\<lparr>trackWrites := None\<rparr>)
              else return ()) (\<lambda>_.
     return desc))"

text \<open>A \<^verbatim>\<open>handleScrollToSelection\<close> handler, called as \<^verbatim>\<open>f(this)\<close>.\<close>

definition call_handler :: "env \<Rightarrow> jsval \<Rightarrow> (jsval, machine) comp" where
  "call_handler env f =
     (case f of JFun k \<Rightarrow> perform env (HandleScrollToSelection k) (handler_ret env k)
      | _ \<Rightarrow> throw TypeError)"

text \<open>
  Line 193: on Chrome the focus node of the DOM selection is stored in \<^verbatim>\<open>trackWrites\<close>;
  the result is \<^verbatim>\<open>chromeKludge\<close>, falsy (\<open>None\<close>) off Chrome and when there is no focus
  node.
\<close>

definition trackFocusNode :: "env \<Rightarrow> (dom_node option, machine) comp" where
  "trackFocusNode env =
     (if browser_chrome env then
        andThen (perform env GetSelection (focusNode_before env)) (\<lambda>focusNode.
        andThen (modify_view (\<lambda>v. v\<lparr>trackWrites := focusNode\<rparr>)) (\<lambda>_.
        return focusNode))
      else return None)"

text \<open>Lines 194 to 198: patch the document view in place, or discard and rebuild it.\<close>

definition patchOrRebuild ::
  "env \<Rightarrow> EditorState \<Rightarrow> bool \<Rightarrow> Decoration list \<Rightarrow> DecorationSet \<Rightarrow> (unit, machine) comp" where
  "patchOrRebuild env state' redraw outerDeco innerDeco =
     andThen (if redraw then return True
              else andThen (patch_docView env (doc state') outerDeco innerDeco)
                     (\<lambda>ok. return (\<not> ok))) (\<lambda>rebuild.
     if rebuild then
       andThen (perform env (UpdateOuterDeco []) ()) (\<lambda>_.
       andThen (perform env DocViewDestroy ()) (\<lambda>_.
       andThen (docViewDesc env (doc state') outerDeco innerDeco) (\<lambda>desc.
       modify_view (\<lambda>v. v\<lparr>docView := desc\<rparr>))))
     else return ())"

text \<open>
  Lines 188 to 200, the body of \<^verbatim>\<open>if (updateDoc)\<close>; the result is \<^verbatim>\<open>forceSelUpdate\<close>
  after line 199.
\<close>

definition updateDocView ::
  "env \<Rightarrow> EditorState \<Rightarrow> bool \<Rightarrow> Decoration list \<Rightarrow> DecorationSet \<Rightarrow> bool
   \<Rightarrow> (bool, machine) comp" where
  "updateDocView env state' redraw outerDeco innerDeco forceSelUpdate =
     andThen (trackFocusNode env) (\<lambda>chromeKludge.
     andThen (patchOrRebuild env state' redraw outerDeco innerDeco) (\<lambda>_.
     andThen get_view (\<lambda>this.
     return (if chromeKludge \<noteq> None \<and> trackWrites this = None then True
             else forceSelUpdate))))"

text \<open>
  Lines 205 and 206: the condition under which the selection is written in full, with
  the short-circuit order of its tests.
\<close>

definition needsFullWrite :: "env \<Rightarrow> bool \<Rightarrow> (bool, machine) comp" where
  "needsFullWrite env forceSelUpdate =
     (if forceSelUpdate then return True
      else andThen get_view (\<lambda>this.
        if mouseDown this then
          andThen (perform env GetSelection (focusNode_before env)) (\<lambda>_.
          andThen (perform env CurrentSelectionEq (currentSelection_eq_ret env)) (\<lambda>same.
          if same then
            andThen (perform env AnchorInRightPlace (anchorInRightPlace_ret env))
              (\<lambda>inPlace. return (\<not> inPlace))
          else return True))
        else return True))"

text \<open>Lines 207 to 211.\<close>

definition writeSelection :: "env \<Rightarrow> bool \<Rightarrow> bool \<Rightarrow> (unit, machine) comp" where
  "writeSelection env forceSelUpdate fullWrite =
     (if fullWrite then perform env (SelectionToDOM forceSelUpdate) ()
      else andThen (perform env SyncNodeSelection ()) (\<lambda>_. perform env SetCurSelection ()))"

text \<open>Line 186 and 187: the first value of \<^verbatim>\<open>forceSelUpdate\<close>.\<close>

definition contextForcesUpdate ::
  "env \<Rightarrow> EditorState \<Rightarrow> EditorState \<Rightarrow> bool \<Rightarrow> EditorView \<Rightarrow> bool" where
  "contextForcesUpdate env prev state' updateDoc this =
     (updateDoc \<and> (browser_ie env \<or> browser_chrome env) \<and> \<not> composing this
      \<and> \<not> sel_empty (selection prev) \<and> \<not> sel_empty (selection state')
      \<and> selectionContextChanged (selection prev) (selection state'))"

text \<open>Lines 179 to 213: the body of \<^verbatim>\<open>if (updateSel)\<close>.\<close>

definition syncSelection ::
  "env \<Rightarrow> EditorState \<Rightarrow> EditorState \<Rightarrow> bool \<Rightarrow> bool \<Rightarrow> Decoration list \<Rightarrow> DecorationSet
   \<Rightarrow> (unit, machine) comp" where
  "syncSelection env prev state' redraw updateDoc outerDeco innerDeco =
     andThen (perform env ObserverStop ()) (\<lambda>_.
     andThen get_view (\<lambda>this.
     andThen (if updateDoc then
                updateDocView env state' redraw outerDeco innerDeco
                  (contextForcesUpdate env prev state' updateDoc this)
              else return (contextForcesUpdate env prev state' updateDoc this))
       (\<lambda>forceSelUpdate.
     andThen (needsFullWrite env forceSelUpdate) (\<lambda>fullWrite.
     andThen (writeSelection env forceSelUpdate fullWrite) (\<lambda>_.
     perform env ObserverStart ())))))"

text \<open>Lines 220 to 226: scrolling the selection into view.\<close>

definition scrollToSelectionNow :: "env \<Rightarrow> EditorState \<Rightarrow> (unit, machine) comp" where
  "scrollToSelectionNow env state' =
     andThen (perform env GetSelection (focusNode_after env)) (\<lambda>startDOM.
     andThen get_view (\<lambda>this.
     andThen (someProp this ''handleScrollToSelection'' (Some (call_handler env))) (\<lambda>handled.
     if truthy handled then return ()
     else if isNodeSelection (selection state') then
       andThen (perform env (DomAfterPos (sel_from (selection state')))
                  (domAfterPos_ret env (sel_from (selection state'))))
         (\<lambda>n.
       andThen (perform env (GetBoundingClientRect n) (boundingRect_ret env n)) (\<lambda>rect.
       perform env (ScrollRectIntoView rect startDOM) ()))
     else
       andThen (perform env (CoordsAtPos (sel_head (selection state')))
                  (coordsAtPos_ret env (sel_head (selection state'))))
         (\<lambda>rect.
       perform env (ScrollRectIntoView rect startDOM) ()))))"

text \<open>Lines 217 to 229: the scroll position after the update.\<close>

definition resolveScroll ::
  "env \<Rightarrow> EditorState \<Rightarrow> string \<Rightarrow> ScrollPos option \<Rightarrow> (unit, machine) comp" where
  "resolveScroll env state' scroll oldScrollPos =
     (if scroll = ''reset'' then perform env (SetScrollTop 0) ()
      else if scroll = ''to selection'' then scrollToSelectionNow env state'
      else (case oldScrollPos of Some p \<Rightarrow> perform env (ResetScrollPos p) ()
            | None \<Rightarrow> return ()))"

text \<open>Lines 155 to 158; the result is the first value of \<^verbatim>\<open>updateSel\<close>.\<close>

definition stopComposition :: "env \<Rightarrow> EditorState \<Rightarrow> (bool, machine) comp" where
  "stopComposition env state' =
     andThen get_view (\<lambda>this.
       if storedMarks state' \<noteq> None \<and> composing this then
         andThen (clearComposition env) (\<lambda>_. return True)
       else return False)"

text \<open>Lines 161 to 166, the body of \<^verbatim>\<open>if (reconfigured)\<close>; the result is \<^verbatim>\<open>redraw\<close>.\<close>

definition reconfigure :: "env \<Rightarrow> (bool, machine) comp" where
  "reconfigure env =
     andThen get_view (\<lambda>this.
     andThen (if changedNodeViews (buildNodeViews this) (nodeViews this) then
                andThen (modify_view (\<lambda>v. v\<lparr>nodeViews := buildNodeViews this\<rparr>))
                  (\<lambda>_. return True)
              else return False) (\<lambda>redraw.
     andThen (perform env EnsureListeners ()) (\<lambda>_.
     return redraw)))"

text \<open>Lines 173 and 174.\<close>

definition scrollMode :: "bool \<Rightarrow> EditorState \<Rightarrow> EditorState \<Rightarrow> string" where
  "scrollMode reconfigured state' prev =
     (if reconfigured then ''reset''
      else if scrollToSelection state' > scrollToSelection prev then ''to selection''
      else ''preserve'')"

text \<open>Line 175: \<^verbatim>\<open>redraw || !this.docView.matchesNode(state.doc, outerDeco, innerDeco)\<close>.\<close>

definition needsUpdateDoc ::
  "env \<Rightarrow> bool \<Rightarrow> Node \<Rightarrow> Decoration list \<Rightarrow> DecorationSet \<Rightarrow> (bool, machine) comp" where
  "needsUpdateDoc env redraw d outerDeco innerDeco =
     (if redraw then return True
      else andThen (perform env (MatchesNode d outerDeco innerDeco) (matchesNode_ret env))
             (\<lambda>m. return (\<not> m)))"

text \<open>
  Line 177; \<^verbatim>\<open>storeScrollPos\<close> returns an object, so \<^verbatim>\<open>oldScrollPos\<close> is falsy (\<open>None\<close>)
  exactly when it was not called.
\<close>

definition snapshotScroll :: "env \<Rightarrow> string \<Rightarrow> bool \<Rightarrow> (ScrollPos option, machine) comp" where
  "snapshotScroll env scroll updateSel =
     (if scroll = ''preserve'' \<and> updateSel \<and> overflowAnchor env = None then
        andThen (perform env StoreScrollPos (storeScrollPos_ret env)) (\<lambda>p. return (Some p))
      else return None)"

definition updateStateInner :: "env \<Rightarrow> EditorState \<Rightarrow> bool \<Rightarrow> (unit, machine) comp" where
  "updateStateInner env state' reconfigured =
     andThen get_view (\<lambda>this0.
     andThen (stopComposition env state') (\<lambda>updateSel0.
     andThen (modify_view (\<lambda>v. v\<lparr>state := state'\<rparr>)) (\<lambda>_.
     andThen (if reconfigured then reconfigure env else return False) (\<lambda>redraw.
     andThen get_view (\<lambda>this.
     andThen (getEditable env this) (\<lambda>e.
     andThen (modify_view (\<lambda>v. v\<lparr>editable := e\<rparr>)) (\<lambda>_.
     andThen (updateCursorWrapper env) (\<lambda>_.
     andThen (perform env ViewDecorations (viewDecorations_ret env)) (\<lambda>innerDeco.
     andThen get_view (\<lambda>this2.
     andThen (needsUpdateDoc env redraw (doc state') (computeDocDeco env this2) innerDeco)
       (\<lambda>updateDoc.
     andThen (snapshotScroll env (scrollMode reconfigured state' (state this0))
                (updateSel0 \<or> updateDoc
                 \<or> \<not> sel_eq env (selection state') (selection (state this0))))
       (\<lambda>oldScrollPos.
     andThen (if updateSel0 \<or> updateDoc
                  \<or> \<not> sel_eq env (selection state') (selection (state this0)) then
                syncSelection env (state this0) state' redraw updateDoc
                  (computeDocDeco env this2) innerDeco
              else return ()) (\<lambda>_.
     andThen (updatePluginViews env (Some (state this0))) (\<lambda>_.
     resolveScroll env state' (scrollMode reconfigured state' (state this0))
       oldScrollPos))))))))))))))"

definition updateState :: "env \<Rightarrow> EditorState \<Rightarrow> (unit, machine) comp" where
  "updateState env state' =
     andThen get_view (\<lambda>this.
       updateStateInner env state' (plugins_ref (state this) \<noteq> plugins_ref state'))"


section \<open>Resolution order, as the specification words it\<close>

text \<open>
  The values a prop name resolves over, in precedence order: the value given directly to
  the view, then each plugin's value in the order of the plugin list; absent values
  (\<^verbatim>\<open>null\<close>, \<^verbatim>\<open>undefined\<close>) are passed over.
\<close>

definition prop_values :: "EditorView \<Rightarrow> string \<Rightarrow> jsval list" where
  "prop_values vw propName =
     filter neq_null
       (get_prop (view_props vw) propName
        # map (\<lambda>p. get_prop (props p) propName) (plugins (state vw)))"

text \<open>
  Going through a list of values in order, up to the first on which the supplied function
  (or the value itself) is truthy.
\<close>

fun resolve :: "(jsval \<Rightarrow> (jsval, 's) comp) option \<Rightarrow> jsval list \<Rightarrow> (jsval, 's) comp" where
  "resolve f [] s = (Inr JUndefined, s)"
| "resolve f (c # cs) s =
     andThen (apply_f f c) (\<lambda>value. if truthy value then return value else resolve f cs) s"

section \<open>The merged attributes, as the specification words them\<close>

text \<open>
  What one registrant of the \<^verbatim>\<open>attributes\<close> prop contributes: its attribute map (the
  result of calling it on the state when it is a function), nothing when that is falsy.
\<close>

definition registrant_entries :: "env \<Rightarrow> EditorView \<Rightarrow> jsval \<Rightarrow> (string \<times> jsval) list" where
  "registrant_entries env vw value =
     (let value' = (case value of JFun f \<Rightarrow> fn_call env f (state vw) | _ \<Rightarrow> value) in
      if truthy value' then for_in value' else [])"

text \<open>The attributes of every registrant, in resolution order.\<close>

definition attribute_entries :: "env \<Rightarrow> EditorView \<Rightarrow> (string \<times> jsval) list" where
  "attribute_entries env vw =
     concat (map (registrant_entries env vw) (prop_values vw ''attributes''))"

text \<open>First-wins, read literally: the value of the first entry that names the attribute.\<close>

definition first_provided :: "env \<Rightarrow> string \<Rightarrow> (string \<times> jsval) list \<Rightarrow> string option" where
  "first_provided env attr es =
     (case find (\<lambda>kv. fst kv = attr) es of
        Some kv \<Rightarrow> Some (toString env (snd kv))
      | None \<Rightarrow> None)"

text \<open>
  The first entry that names the attribute with a non-empty value; the empty string when
  the attribute is only ever named with empty values.
\<close>

definition first_nonempty :: "env \<Rightarrow> string \<Rightarrow> (string \<times> jsval) list \<Rightarrow> string option" where
  "first_nonempty env attr es =
     (case find (\<lambda>kv. fst kv = attr \<and> toString env (snd kv) \<noteq> []) es of
        Some kv \<Rightarrow> Some (toString env (snd kv))
      | None \<Rightarrow> if list_ex (\<lambda>kv. fst kv = attr) es then Some [] else None)"

section \<open>Sample inputs\<close>

text \<open>
  A document of two paragraphs of two characters each (positions 0 to 8): the first
  paragraph's content starts at 1 and ends at 3, the second's starts at 5 and ends at 7.
  The two selections each cover one paragraph.
\<close>

definition pos_in_first :: ResolvedPos where
  "pos_in_first =
     \<lparr>pos = 1, start = (\<lambda>d. if d = 0 then 0 else 1),
      sharedDepth = (\<lambda>p. if 1 \<le> p \<and> p \<le> 3 then 1 else 0)\<rparr>"

definition pos_in_second :: ResolvedPos where
  "pos_in_second =
     \<lparr>pos = 5, start = (\<lambda>d. if d = 0 then 0 else 5),
      sharedDepth = (\<lambda>p. if 5 \<le> p \<and> p \<le> 7 then 1 else 0)\<rparr>"

definition sel_first :: Selection where
  "sel_first =
     \<lparr>anchor_r = pos_in_first, sel_head = 3, sel_from = 1, sel_empty = False,
      isNodeSelection = False\<rparr>"

definition sel_second :: Selection where
  "sel_second =
     \<lparr>anchor_r = pos_in_second, sel_head = 7, sel_from = 5, sel_empty = False,
      isNodeSelection = False\<rparr>"

definition ex_plugin :: Plugin where
  "ex_plugin =
     \<lparr>props = [(''attributes'', JObj [(''class'', JStr ''b''), (''title'', JStr ''x'')])],
      spec_view = Some 7\<rparr>"

definition ex_state :: EditorState where
  "ex_state =
     \<lparr>doc = \<lparr>node_key = 0, content_size = 8\<rparr>, selection = sel_first, storedMarks = None,
      plugins = [ex_plugin], plugins_ref = 0, scrollToSelection = 0\<rparr>"

definition ex_view :: EditorView where
  "ex_view =
     \<lparr>view_props = [(''attributes'', JObj [(''class'', JStr ''a''), (''title'', JStr [])])],
      state = ex_state, editable = True, composing = False, markCursor = None,
      cursorWrapper = None, nodeViews = [], docView = 0, trackWrites = None,
      mouseDown = False, pluginViews = []\<rparr>"

text \<open>
  An environment in which nothing throws, on Chrome without scroll anchoring: the document
  view does not match, the patch fails and the rebuild writes to the tracked node.
\<close>

definition ex_env :: env where
  "ex_env =
     \<lparr>raises = (\<lambda>_. None), fn_call = (\<lambda>_ _. JUndefined), fn_text = (\<lambda>_. ''f''),
      browser_ie = False, browser_chrome = True, overflowAnchor = None,
      sel_eq = (\<lambda>a b. pos (anchor_r a) = pos (anchor_r b) \<and> sel_head a = sel_head b),
      new_element = 1, viewDecorations_ret = 0, matchesNode_ret = False,
      storeScrollPos_ret = 5, focusNode_before = Some 3, update_ret = False,
      update_wrote = False, docViewDesc_ret = 9, docViewDesc_wrote = True,
      currentSelection_eq_ret = True, anchorInRightPlace_ret = True,
      pluginView_ret = (\<lambda>k. \<lparr>pv_key = k, has_update = True, has_destroy = True\<rparr>),
      focusNode_after = None, handler_ret = (\<lambda>_. JBool False),
      domAfterPos_ret = (\<lambda>p. p + 10),
      boundingRect_ret = (\<lambda>n. \<lparr>left = 0, right = 40, top = int n, bottom = int n + 20\<rparr>),
      coordsAtPos_ret = (\<lambda>p. \<lparr>left = int p, right = int p, top = 0, bottom = 20\<rparr>)\<rparr>"

section \<open>The update when nothing throws\<close>

text \<open>
  When no operation throws, each part of the update returns; what it returns, the operations
  it performs and the view it leaves are given by the definitions of this section, part by
  part, and the lemmas below prove that the run is as they say.
\<close>

text \<open>
  The cursor wrapper that \<^verbatim>\<open>updateCursorWrapper\<close> leaves, and the operations it performs.
\<close>

definition cursorWrapper_of :: "env \<Rightarrow> EditorView \<Rightarrow> CursorWrapper option" where
  "cursorWrapper_of env vw =
     (case markCursor vw of
        Some marks \<Rightarrow>
          Some \<lparr>cw_dom = new_element env,
                cw_deco = Decoration_widget (sel_head (selection (state vw))) (new_element env) marks\<rparr>
      | None \<Rightarrow> None)"

definition cursorWrapper_ops :: "env \<Rightarrow> EditorView \<Rightarrow> op list" where
  "cursorWrapper_ops env vw =
     (case markCursor vw of
        Some marks \<Rightarrow> [CreateElement ''img'', SetAttribute (new_element env) ''mark-placeholder'' ''true'']
      | None \<Rightarrow> [])"

text \<open>
  Lines 194 to 198 with \<open>redraw\<close> given: whether the document view is rebuilt, whether the
  patch or the rebuild wrote to the tracked node, and the operations performed.
\<close>

definition patch_rebuilds :: "env \<Rightarrow> bool \<Rightarrow> bool" where
  "patch_rebuilds env redraw = (redraw \<or> \<not> update_ret env)"

definition patch_wrote :: "env \<Rightarrow> bool \<Rightarrow> bool" where
  "patch_wrote env redraw =
     ((\<not> redraw \<and> update_wrote env) \<or> (patch_rebuilds env redraw \<and> docViewDesc_wrote env))"

definition patch_ops :: "env \<Rightarrow> EditorState \<Rightarrow> bool \<Rightarrow> Decoration list \<Rightarrow> DecorationSet \<Rightarrow> op list" where
  "patch_ops env st redraw outerDeco innerDeco =
     (if redraw then [] else [DocViewUpdate (doc st) outerDeco innerDeco])
     @ (if patch_rebuilds env redraw
        then [UpdateOuterDeco [], DocViewDestroy, DocViewDesc (doc st) outerDeco innerDeco]
        else [])"

text \<open>
  Line 199: on Chrome, with a focus node, the write to the tracked node forces the selection
  update.
\<close>

definition kludge_fires :: "env \<Rightarrow> bool \<Rightarrow> bool" where
  "kludge_fires env redraw =
     (browser_chrome env \<and> focusNode_before env \<noteq> None \<and> patch_wrote env redraw)"

text \<open>
  Lines 205 to 211 with \<open>forceSelUpdate\<close> given: the tests made, whether the selection is
  written in full, and the write.
\<close>

definition check_ops :: "env \<Rightarrow> bool \<Rightarrow> EditorView \<Rightarrow> op list" where
  "check_ops env force vw =
     (if \<not> force \<and> mouseDown vw
      then [GetSelection, CurrentSelectionEq]
           @ (if currentSelection_eq_ret env then [AnchorInRightPlace] else [])
      else [])"

definition full_write :: "env \<Rightarrow> bool \<Rightarrow> EditorView \<Rightarrow> bool" where
  "full_write env force vw =
     (force \<or> \<not> (mouseDown vw \<and> currentSelection_eq_ret env \<and> anchorInRightPlace_ret env))"

definition write_ops :: "bool \<Rightarrow> bool \<Rightarrow> op list" where
  "write_ops force full = (if full then [SelectionToDOM force] else [SyncNodeSelection, SetCurSelection])"

text \<open>The value of \<^verbatim>\<open>forceSelUpdate\<close> at line 205.\<close>

definition sync_force :: "env \<Rightarrow> EditorState \<Rightarrow> EditorState \<Rightarrow> bool \<Rightarrow> bool \<Rightarrow> EditorView \<Rightarrow> bool" where
  "sync_force env prev st redraw updateDoc vw =
     ((updateDoc \<and> kludge_fires env redraw) \<or> contextForcesUpdate env prev st updateDoc vw)"

text \<open>The operations of lines 179 to 213, and the view they leave.\<close>

definition sync_ops ::
  "env \<Rightarrow> EditorState \<Rightarrow> EditorState \<Rightarrow> bool \<Rightarrow> bool \<Rightarrow> Decoration list \<Rightarrow> DecorationSet
   \<Rightarrow> EditorView \<Rightarrow> op list" where
  "sync_ops env prev st redraw updateDoc outerDeco innerDeco vw =
     [ObserverStop]
     @ (if updateDoc then (if browser_chrome env then [GetSelection] else [])
                          @ patch_ops env st redraw outerDeco innerDeco
        else [])
     @ check_ops env (sync_force env prev st redraw updateDoc vw) vw
     @ write_ops (sync_force env prev st redraw updateDoc vw)
         (full_write env (sync_force env prev st redraw updateDoc vw) vw)
     @ [ObserverStart]"

definition sync_view :: "env \<Rightarrow> bool \<Rightarrow> bool \<Rightarrow> EditorView \<Rightarrow> EditorView" where
  "sync_view env redraw updateDoc vw =
     vw\<lparr>trackWrites := if updateDoc \<and> patch_wrote env redraw then None
                        else if updateDoc \<and> browser_chrome env then focusNode_before env
                        else trackWrites vw,
        docView := if updateDoc \<and> patch_rebuilds env redraw then docViewDesc_ret env
                   else docView vw\<rparr>"

text \<open>
  The hooks \<^verbatim>\<open>updatePluginViews\<close> calls, and the plugin views it leaves.
\<close>

definition plugin_ops :: "EditorState \<Rightarrow> EditorView \<Rightarrow> op list" where
  "plugin_ops prev vw =
     (if plugins_ref prev \<noteq> plugins_ref (state vw) then
        map (\<lambda>pv. PluginViewDestroy (pv_key pv)) (filter has_destroy (rev (pluginViews vw)))
        @ map PluginViewCreate (List.map_filter spec_view (plugins (state vw)))
      else map (\<lambda>pv. PluginViewUpdate (pv_key pv)) (filter has_update (pluginViews vw)))"

definition plugin_views :: "env \<Rightarrow> EditorState \<Rightarrow> EditorView \<Rightarrow> PluginView list" where
  "plugin_views env prev vw =
     (if plugins_ref prev \<noteq> plugins_ref (state vw) then
        map (pluginView_ret env) (List.map_filter spec_view (plugins (state vw)))
      else pluginViews vw)"

text \<open>
  Offering the scroll to the \<^verbatim>\<open>handleScrollToSelection\<close> handlers in resolution order: the
  handlers called, up to the first that returns a truthy value, and that value; a handler
  that is not a function ends the run with a TypeError.
\<close>

fun handler_run :: "env \<Rightarrow> jsval list \<Rightarrow> (exn + jsval) \<times> op list" where
  "handler_run env [] = (Inr JUndefined, [])"
| "handler_run env (c # cs) =
     (case c of
        JFun k \<Rightarrow>
          if truthy (handler_ret env k) then (Inr (handler_ret env k), [HandleScrollToSelection k])
          else (fst (handler_run env cs), HandleScrollToSelection k # snd (handler_run env cs))
      | _ \<Rightarrow> (Inl TypeError, []))"

text \<open>The result and the operations of lines 220 to 226.\<close>

definition scrollTo_result :: "env \<Rightarrow> EditorView \<Rightarrow> exn + unit" where
  "scrollTo_result env vw =
     (case fst (handler_run env (prop_values vw ''handleScrollToSelection'')) of
        Inl e \<Rightarrow> Inl e | Inr handled \<Rightarrow> Inr ())"

definition scrollTo_ops :: "env \<Rightarrow> EditorState \<Rightarrow> EditorView \<Rightarrow> op list" where
  "scrollTo_ops env st vw =
     GetSelection # snd (handler_run env (prop_values vw ''handleScrollToSelection''))
     @ (case fst (handler_run env (prop_values vw ''handleScrollToSelection'')) of
          Inl e \<Rightarrow> []
        | Inr handled \<Rightarrow>
            if truthy handled then []
            else if isNodeSelection (selection st) then
              [DomAfterPos (sel_from (selection st)),
               GetBoundingClientRect (domAfterPos_ret env (sel_from (selection st))),
               ScrollRectIntoView
                 (boundingRect_ret env (domAfterPos_ret env (sel_from (selection st))))
                 (focusNode_after env)]
            else
              [CoordsAtPos (sel_head (selection st)),
               ScrollRectIntoView (coordsAtPos_ret env (sel_head (selection st)))
                 (focusNode_after env)])"

text \<open>The result and the operations of lines 217 to 229.\<close>

definition scroll_result :: "env \<Rightarrow> string \<Rightarrow> EditorView \<Rightarrow> exn + unit" where
  "scroll_result env scroll vw =
     (if scroll = ''to selection'' then scrollTo_result env vw else Inr ())"

definition scroll_ops :: "env \<Rightarrow> EditorState \<Rightarrow> string \<Rightarrow> ScrollPos option \<Rightarrow> EditorView \<Rightarrow> op list" where
  "scroll_ops env st scroll oldScrollPos vw =
     (if scroll = ''reset'' then [SetScrollTop 0]
      else if scroll = ''to selection'' then scrollTo_ops env st vw
      else (case oldScrollPos of Some p \<Rightarrow> [ResetScrollPos p] | None \<Rightarrow> []))"

text \<open>
  The function \<^verbatim>\<open>getEditable\<close> hands to \<^verbatim>\<open>someProp\<close>, which leaves the state alone.
\<close>

definition editable_test :: "env \<Rightarrow> EditorState \<Rightarrow> jsval \<Rightarrow> exn + jsval" where
  "editable_test env st value =
     (case value of JFun f \<Rightarrow> Inr (JBool (fn_call env f st = JBool False))
      | _ \<Rightarrow> Inl TypeError)"

text \<open>Resolution with a function that leaves the state alone.\<close>

fun first_hit :: "(jsval \<Rightarrow> exn + jsval) \<Rightarrow> jsval list \<Rightarrow> exn + jsval" where
  "first_hit g [] = Inr JUndefined"
| "first_hit g (c # cs) =
     (case g c of Inl e \<Rightarrow> Inl e
      | Inr r \<Rightarrow> if truthy r then Inr r else first_hit g cs)"

text \<open>What \<^verbatim>\<open>getEditable\<close> returns.\<close>

definition editable_result :: "env \<Rightarrow> EditorView \<Rightarrow> exn + bool" where
  "editable_result env vw =
     (case first_hit (editable_test env (state vw)) (prop_values vw ''editable'') of
        Inl e \<Rightarrow> Inl e | Inr r \<Rightarrow> Inr (\<not> truthy r))"

text \<open>
  The view after lines 155 to 159: the composition cleared when the new state has stored
  marks, and the new state stored.
\<close>

definition view_with_state :: "EditorState \<Rightarrow> EditorView \<Rightarrow> EditorView" where
  "view_with_state st vw = vw\<lparr>composing := composing vw \<and> storedMarks st = None, state := st\<rparr>"

text \<open>
  The value of \<^verbatim>\<open>redraw\<close> after line 167: a reconfiguration changed the node views.
\<close>

definition forcedRebuild :: "EditorState \<Rightarrow> bool \<Rightarrow> EditorView \<Rightarrow> bool" where
  "forcedRebuild st rc vw =
     (rc \<and> changedNodeViews (buildNodeViews (view_with_state st vw)) (nodeViews vw))"

text \<open>
  The view after line 167, and after line 171 when \<^verbatim>\<open>getEditable\<close> returned \<open>e\<close>.
\<close>

definition view_reconfigured :: "EditorState \<Rightarrow> bool \<Rightarrow> EditorView \<Rightarrow> EditorView" where
  "view_reconfigured st rc vw =
     (view_with_state st vw)\<lparr>nodeViews := if forcedRebuild st rc vw then buildNodeViews (view_with_state st vw)
                                 else nodeViews vw\<rparr>"

definition view_before_sync :: "env \<Rightarrow> EditorState \<Rightarrow> bool \<Rightarrow> bool \<Rightarrow> EditorView \<Rightarrow> EditorView" where
  "view_before_sync env st rc e vw =
     (view_reconfigured st rc vw)\<lparr>editable := e,
                       cursorWrapper := cursorWrapper_of env ((view_reconfigured st rc vw)\<lparr>editable := e\<rparr>)\<rparr>"

text \<open>
  The value of \<^verbatim>\<open>updateDoc\<close>: the rendered tree needs patching.
\<close>

definition needsPatch :: "env \<Rightarrow> EditorState \<Rightarrow> bool \<Rightarrow> EditorView \<Rightarrow> bool" where
  "needsPatch env st rc vw = (forcedRebuild st rc vw \<or> \<not> matchesNode_ret env)"

text \<open>
  The value of \<^verbatim>\<open>updateSel\<close> at line 177: the selection needs a resync.
\<close>

definition needsResync :: "env \<Rightarrow> EditorState \<Rightarrow> bool \<Rightarrow> EditorView \<Rightarrow> bool" where
  "needsResync env st rc vw =
     ((storedMarks st \<noteq> None \<and> composing vw) \<or> needsPatch env st rc vw
      \<or> \<not> sel_eq env (selection st) (selection (state vw)))"

text \<open>
  The condition of line 177 under which \<^verbatim>\<open>storeScrollPos\<close> is called.
\<close>

definition takesSnapshot :: "env \<Rightarrow> EditorState \<Rightarrow> bool \<Rightarrow> EditorView \<Rightarrow> bool" where
  "takesSnapshot env st rc vw =
     (scrollMode rc st (state vw) = ''preserve'' \<and> needsResync env st rc vw
      \<and> overflowAnchor env = None)"

text \<open>The view after line 213, and after line 215.\<close>

definition view_after_sync :: "env \<Rightarrow> EditorState \<Rightarrow> bool \<Rightarrow> bool \<Rightarrow> EditorView \<Rightarrow> EditorView" where
  "view_after_sync env st rc e vw =
     (if needsResync env st rc vw
      then sync_view env (forcedRebuild st rc vw) (needsPatch env st rc vw) (view_before_sync env st rc e vw)
      else view_before_sync env st rc e vw)"

definition view_after_update :: "env \<Rightarrow> EditorState \<Rightarrow> bool \<Rightarrow> bool \<Rightarrow> EditorView \<Rightarrow> EditorView" where
  "view_after_update env st rc e vw =
     (view_after_sync env st rc e vw)\<lparr>pluginViews := plugin_views env (state vw) (view_after_sync env st rc e vw)\<rparr>"

text \<open>The operations of lines 155 to 167.\<close>

definition prep_ops :: "EditorState \<Rightarrow> bool \<Rightarrow> EditorView \<Rightarrow> op list" where
  "prep_ops st rc vw =
     (if storedMarks st \<noteq> None \<and> composing vw then [ClearComposition] else [])
     @ (if rc then [EnsureListeners] else [])"

text \<open>
  The operations of lines 179 to 213 and of lines 217 to 229, for the values the update has
  computed by then.
\<close>

definition upd_sync_ops :: "env \<Rightarrow> EditorState \<Rightarrow> bool \<Rightarrow> bool \<Rightarrow> EditorView \<Rightarrow> op list" where
  "upd_sync_ops env st rc e vw =
     (if needsResync env st rc vw
      then sync_ops env (state vw) st (forcedRebuild st rc vw) (needsPatch env st rc vw)
             (computeDocDeco env (view_before_sync env st rc e vw)) (viewDecorations_ret env)
             (view_before_sync env st rc e vw)
      else [])"

definition upd_scroll_ops :: "env \<Rightarrow> EditorState \<Rightarrow> bool \<Rightarrow> bool \<Rightarrow> EditorView \<Rightarrow> op list" where
  "upd_scroll_ops env st rc e vw =
     scroll_ops env st (scrollMode rc st (state vw))
       (if takesSnapshot env st rc vw then Some (storeScrollPos_ret env) else None)
       (view_after_update env st rc e vw)"

text \<open>The operations from line 170 on.\<close>

definition rest_ops :: "env \<Rightarrow> EditorState \<Rightarrow> bool \<Rightarrow> bool \<Rightarrow> EditorView \<Rightarrow> op list" where
  "rest_ops env st rc e vw =
     cursorWrapper_ops env ((view_reconfigured st rc vw)\<lparr>editable := e\<rparr>)
     @ [ViewDecorations]
     @ (if forcedRebuild st rc vw then []
        else [MatchesNode (doc st) (computeDocDeco env (view_before_sync env st rc e vw))
                (viewDecorations_ret env)])
     @ (if takesSnapshot env st rc vw then [StoreScrollPos] else [])
     @ upd_sync_ops env st rc e vw
     @ plugin_ops (state vw) (view_after_sync env st rc e vw)
     @ upd_scroll_ops env st rc e vw"

section \<open>Runs that return\<close>

text \<open>
  The environment in which no operation throws and every operation returns what it returns
  in \<open>env\<close>.
\<close>

definition quiet :: "env \<Rightarrow> env" where
  "quiet env = env\<lparr>raises := (\<lambda>_. None)\<rparr>"

text \<open>Every run of \<open>m\<close> that returns is also a run of \<open>m'\<close>.\<close>

definition normal_le :: "('a, machine) comp \<Rightarrow> ('a, machine) comp \<Rightarrow> bool" where
  "normal_le m m' = (\<forall>s r s'. m s = (Inr r, s') \<longrightarrow> m' s = (Inr r, s'))"


section \<open>Kinds of operations\<close>

text \<open>
  The operations that write to the rendered tree or to the platform selection or focus.
\<close>

fun is_mutation :: "op \<Rightarrow> bool" where
  "is_mutation (DocViewUpdate d outerDeco innerDeco) = True"
| "is_mutation (UpdateOuterDeco decos) = True"
| "is_mutation DocViewDestroy = True"
| "is_mutation (DocViewDesc d outerDeco innerDeco) = True"
| "is_mutation (SelectionToDOM force) = True"
| "is_mutation SyncNodeSelection = True"
| "is_mutation FocusPreventScroll = True"
| "is_mutation opr = False"

text \<open>
  The operations each part of the update can perform: lines 155 to 175, lines 179 to 213,
  line 215, and lines 217 to 229.
\<close>

fun in_prepare :: "op \<Rightarrow> bool" where
  "in_prepare ClearComposition = True"
| "in_prepare EnsureListeners = True"
| "in_prepare (CreateElement tag) = True"
| "in_prepare (SetAttribute n k v) = True"
| "in_prepare ViewDecorations = True"
| "in_prepare (MatchesNode d outerDeco innerDeco) = True"
| "in_prepare opr = False"

fun in_sync :: "op \<Rightarrow> bool" where
  "in_sync ObserverStop = True"
| "in_sync ObserverStart = True"
| "in_sync GetSelection = True"
| "in_sync (DocViewUpdate d outerDeco innerDeco) = True"
| "in_sync (UpdateOuterDeco decos) = True"
| "in_sync DocViewDestroy = True"
| "in_sync (DocViewDesc d outerDeco innerDeco) = True"
| "in_sync CurrentSelectionEq = True"
| "in_sync AnchorInRightPlace = True"
| "in_sync (SelectionToDOM force) = True"
| "in_sync SyncNodeSelection = True"
| "in_sync SetCurSelection = True"
| "in_sync opr = False"

fun in_plugins :: "op \<Rightarrow> bool" where
  "in_plugins (PluginViewDestroy k) = True"
| "in_plugins (PluginViewCreate k) = True"
| "in_plugins (PluginViewUpdate k) = True"
| "in_plugins opr = False"

fun in_scroll :: "op \<Rightarrow> bool" where
  "in_scroll (SetScrollTop n) = True"
| "in_scroll GetSelection = True"
| "in_scroll (HandleScrollToSelection k) = True"
| "in_scroll (DomAfterPos p) = True"
| "in_scroll (GetBoundingClientRect n) = True"
| "in_scroll (CoordsAtPos p) = True"
| "in_scroll (ScrollRectIntoView r n) = True"
| "in_scroll (ResetScrollPos p) = True"
| "in_scroll opr = False"

text \<open>The operations of lines 155 to 175.\<close>

definition prepare_ops :: "env \<Rightarrow> EditorState \<Rightarrow> bool \<Rightarrow> bool \<Rightarrow> EditorView \<Rightarrow> op list" where
  "prepare_ops env st rc e vw =
     prep_ops st rc vw
     @ cursorWrapper_ops env ((view_reconfigured st rc vw)\<lparr>editable := e\<rparr>)
     @ [ViewDecorations]
     @ (if forcedRebuild st rc vw then []
        else [MatchesNode (doc st) (computeDocDeco env (view_before_sync env st rc e vw))
                (viewDecorations_ret env)])"

text \<open>
  The operations that move the viewport or hand the move to a handler, and those that
  measure what is to be scrolled into view.
\<close>

fun is_scroll_effect :: "op \<Rightarrow> bool" where
  "is_scroll_effect (SetScrollTop n) = True"
| "is_scroll_effect (HandleScrollToSelection k) = True"
| "is_scroll_effect (DomAfterPos p) = True"
| "is_scroll_effect (GetBoundingClientRect n) = True"
| "is_scroll_effect (CoordsAtPos p) = True"
| "is_scroll_effect (ScrollRectIntoView r n) = True"
| "is_scroll_effect (ResetScrollPos p) = True"
| "is_scroll_effect opr = False"


text \<open>An operation that neither stops nor starts the observer nor writes.\<close>

definition neutral :: "op \<Rightarrow> bool" where
  "neutral opr = (opr \<noteq> ObserverStop \<and> opr \<noteq> ObserverStart \<and> \<not> is_mutation opr)"

text \<open>The two ways the selection block writes the selection.\<close>

fun is_selection_write :: "op \<Rightarrow> bool" where
  "is_selection_write (SelectionToDOM force) = True"
| "is_selection_write SyncNodeSelection = True"
| "is_selection_write opr = False"

text \<open>
  The detector as the specification words it: the shared ancestor depths of the two
  selections differ.
\<close>

definition shared_depth_differs :: "Selection \<Rightarrow> Selection \<Rightarrow> bool" where
  "shared_depth_differs sel1 sel2 =
     (sharedDepth (anchor_r sel1) (sel_head sel1) \<noteq> sharedDepth (anchor_r sel2) (sel_head sel2))"


section \<open>Further sample inputs\<close>

text \<open>
  The sample environment, except that \<^verbatim>\<open>docView.update\<close> throws.
\<close>

definition throwing_env :: env where
  "throwing_env =
     ex_env\<lparr>raises := (\<lambda>opr. case opr of
                                 DocViewUpdate d outerDeco innerDeco \<Rightarrow> Some (Thrown 0)
                               | _ \<Rightarrow> None)\<rparr>"

text \<open>The sample environment on Internet Explorer instead of Chrome.\<close>

definition ie_env :: env where
  "ie_env = ex_env\<lparr>browser_ie := True, browser_chrome := False\<rparr>"

text \<open>The sample environment, except that \<^verbatim>\<open>docView.destroy\<close> throws.\<close>

definition failing_rebuild_env :: env where
  "failing_rebuild_env =
     ex_env\<lparr>raises := (\<lambda>opr. case opr of DocViewDestroy \<Rightarrow> Some (Thrown 1) | _ \<Rightarrow> None)\<rparr>"

section \<open>Prop resolution\<close>

lemma someProp_plugins_resolve:
  "someProp_plugins ps propName f s
     = resolve f (filter neq_null (map (\<lambda>p. get_prop (props p) propName) ps)) s"
proof (induction ps arbitrary: s)
  case Nil
  show ?case by simp
next
  case (Cons p ps)
  have eq: "someProp_plugins ps propName f
     = resolve f (filter neq_null (map (\<lambda>p. get_prop (props p) propName) ps))"
    using Cons.IH by (rule ext)
  show ?case by (simp add: Let_def eq cong del: if_weak_cong)
qed

lemma someProp_resolve: "someProp vw propName f s = resolve f (prop_values vw propName) s"
proof -
  have eq: "someProp_plugins (plugins (state vw)) propName f
     = resolve f (filter neq_null (map (\<lambda>p. get_prop (props p) propName) (plugins (state vw))))"
    by (rule ext) (rule someProp_plugins_resolve)
  show ?thesis by (simp add: someProp_def prop_values_def Let_def eq cong del: if_weak_cong)
qed

lemma resolve_logging:
  "resolve (Some (\<lambda>v calls. (Inr (g v), calls @ [v]))) cs calls0 =
     (case find (\<lambda>v. truthy (g v)) cs of
        Some w \<Rightarrow> (Inr (g w), calls0 @ takeWhile (\<lambda>v. \<not> truthy (g v)) cs @ [w])
      | None \<Rightarrow> (Inr JUndefined, calls0 @ cs))"
  by (induction cs arbitrary: calls0)
     (simp_all add: andThen_def apply_f_def return_def split: option.splits)

lemma resolve_identity:
  "resolve None cs s = (Inr (case find truthy cs of Some w \<Rightarrow> w | None \<Rightarrow> JUndefined), s)"
  by (induction cs) (simp_all add: andThen_def apply_f_def return_def)

text \<open>
  C3. \<^verbatim>\<open>someProp\<close> goes over the direct prop value and then the plugins' values in
  registration order, passing over absent ones. With a function \<open>g\<close> supplied (here
  recording each value it is applied to), the result is \<open>g\<close> of the first value on which
  \<open>g\<close> is truthy, and \<open>g\<close> has been applied to the values up to that one and to none
  after it; when no value qualifies the result is \<^verbatim>\<open>undefined\<close> and every value has
  been tried. With no function supplied, the result is the first truthy value itself.
\<close>

theorem someProp_first_truthy_wins:
  "someProp vw propName (Some (\<lambda>v calls. (Inr (g v), calls @ [v]))) [] =
     (case find (\<lambda>v. truthy (g v)) (prop_values vw propName) of
        Some w \<Rightarrow> (Inr (g w), takeWhile (\<lambda>v. \<not> truthy (g v)) (prop_values vw propName) @ [w])
      | None \<Rightarrow> (Inr JUndefined, prop_values vw propName))
   \<and> someProp vw propName None s =
     (Inr (case find truthy (prop_values vw propName) of Some w \<Rightarrow> w | None \<Rightarrow> JUndefined), s)"
  by (simp add: someProp_resolve resolve_logging resolve_identity split: option.splits)

section \<open>The attributes of the document node\<close>

lemma resolve_attributes:
  "resolve (Some (attributes_callback env vw)) cs attrs =
     (Inr JUndefined, foldl (merge_attr env) attrs (concat (map (registrant_entries env vw) cs)))"
  by (induction cs arbitrary: attrs)
     (simp_all add: andThen_def apply_f_def return_def attributes_callback_def
        registrant_entries_def Let_def)

lemma computeDocDeco_attrs_fold:
  "computeDocDeco_attrs env vw =
     foldl (merge_attr env)
       [(''class'', ''ProseMirror''), (''contenteditable'', toString env (JBool (editable vw)))]
       (attribute_entries env vw)"
  by (simp add: computeDocDeco_attrs_def someProp_resolve resolve_attributes attribute_entries_def)

lemma merge_attr_other:
  "attr \<noteq> fst kv \<Longrightarrow> map_of (merge_attr env attrs kv) attr = map_of attrs attr"
  by (auto simp: merge_attr_def Let_def update_conv')

lemma merge_attr_class:
  "map_of (merge_attr env attrs (''class'', v)) ''class'' =
     Some ((case map_of attrs ''class'' of None \<Rightarrow> ''undefined'' | Some c \<Rightarrow> c) @ '' '' @ toString env v)"
  by (simp add: merge_attr_def Let_def update_conv')

lemma merge_attr_same:
  "attr \<noteq> ''class'' \<Longrightarrow>
   map_of (merge_attr env attrs (attr, v)) attr =
     (if (case map_of attrs attr of None \<Rightarrow> True | Some old \<Rightarrow> old = [])
         \<and> attr \<noteq> ''contenteditable'' \<and> attr \<noteq> ''nodeName''
      then Some (toString env v) else map_of attrs attr)"
  by (simp add: merge_attr_def Let_def update_conv')

lemma fold_class:
  "map_of attrs ''class'' = Some c \<Longrightarrow>
   map_of (foldl (merge_attr env) attrs es) ''class'' =
     Some (c @ concat (map (\<lambda>kv. '' '' @ toString env (snd kv))
                         (filter (\<lambda>kv. fst kv = ''class'') es)))"
proof (induction es arbitrary: attrs c)
  case Nil
  then show ?case by simp
next
  case (Cons kv es)
  show ?case
  proof (cases "fst kv = ''class''")
    case True
    then have kv: "kv = (''class'', snd kv)" by (cases kv) simp
    have "map_of (merge_attr env attrs kv) ''class'' = Some (c @ '' '' @ toString env (snd kv))"
      using merge_attr_class [of env attrs "snd kv"] Cons.prems kv by simp
    from Cons.IH [OF this] True show ?thesis by simp
  next
    case False
    then have "map_of (merge_attr env attrs kv) ''class'' = Some c"
      using merge_attr_other [of "''class''" kv env attrs] Cons.prems by simp
    from Cons.IH [OF this] False show ?thesis by simp
  qed
qed

lemma fold_fixed:
  "attr = ''contenteditable'' \<or> attr = ''nodeName'' \<Longrightarrow>
   map_of (foldl (merge_attr env) attrs es) attr = map_of attrs attr"
proof (induction es arbitrary: attrs)
  case Nil
  show ?case by simp
next
  case (Cons kv es)
  have "map_of (merge_attr env attrs kv) attr = map_of attrs attr"
  proof (cases "fst kv = attr")
    case True
    then have kv: "kv = (attr, snd kv)" by (cases kv) simp
    from Cons.prems have "attr \<noteq> ''class''" by auto
    from merge_attr_same [OF this, of env attrs "snd kv"] kv Cons.prems show ?thesis by auto
  next
    case False
    then show ?thesis using merge_attr_other [of attr kv env attrs] by simp
  qed
  with Cons.IH [OF Cons.prems, of "merge_attr env attrs kv"] show ?case by simp
qed

lemma fold_first_nonempty:
  assumes "attr \<noteq> ''class''" "attr \<noteq> ''contenteditable''" "attr \<noteq> ''nodeName''"
  shows "map_of (foldl (merge_attr env) attrs es) attr =
     (case map_of attrs attr of
        Some old \<Rightarrow> if old \<noteq> [] then Some old
                    else (case first_nonempty env attr es of None \<Rightarrow> Some [] | Some w \<Rightarrow> Some w)
      | None \<Rightarrow> first_nonempty env attr es)"
proof (induction es arbitrary: attrs)
  case Nil
  show ?case by (simp add: first_nonempty_def split: option.splits)
next
  case (Cons kv es)
  show ?case
  proof (cases "fst kv = attr")
    case True
    then have kv: "kv = (attr, snd kv)" by (cases kv) simp
    have m: "map_of (merge_attr env attrs kv) attr =
       (if (case map_of attrs attr of None \<Rightarrow> True | Some old \<Rightarrow> old = [])
        then Some (toString env (snd kv)) else map_of attrs attr)"
      using merge_attr_same [OF assms(1), of env attrs "snd kv"] kv assms by simp
    show ?thesis
      using Cons.IH [of "merge_attr env attrs kv"] True
      by (simp add: m first_nonempty_def split: option.splits if_splits)
  next
    case False
    then have m: "map_of (merge_attr env attrs kv) attr = map_of attrs attr"
      using merge_attr_other [of attr kv env attrs] by simp
    show ?thesis
      using Cons.IH [of "merge_attr env attrs kv"] False
      by (simp add: m first_nonempty_def split: option.splits)
  qed
qed

lemma first_token:
  "takeWhile (\<lambda>c. c \<noteq> CHR '' '') (concat (map (\<lambda>kv. CHR '' '' # f kv) es)) = []"
  by (cases es) simp_all

text \<open>
  C10. Whatever the state and the \<^verbatim>\<open>attributes\<close> props, the decoration computed for the
  document node is one node decoration over the whole content whose attributes have a
  \<^verbatim>\<open>class\<close> with first token \<^verbatim>\<open>ProseMirror\<close>, a \<^verbatim>\<open>contenteditable\<close> that is the string
  form of the view's editable flag, and no \<^verbatim>\<open>nodeName\<close>: no registrant changes the last
  two.
\<close>

theorem computeDocDeco_fixed_attributes:
  "\<exists>cls. computeDocDeco env vw =
            [Decoration_node 0 (content_size (doc (state vw))) (computeDocDeco_attrs env vw)]
     \<and> map_of (computeDocDeco_attrs env vw) ''class'' = Some cls
     \<and> takeWhile (\<lambda>c. c \<noteq> CHR '' '') cls = ''ProseMirror''
     \<and> map_of (computeDocDeco_attrs env vw) ''contenteditable''
         = Some (if editable vw then ''true'' else ''false'')
     \<and> map_of (computeDocDeco_attrs env vw) ''nodeName'' = None"
proof -
  let ?es = "attribute_entries env vw"
  have cls: "map_of (computeDocDeco_attrs env vw) ''class'' =
     Some (''ProseMirror'' @ concat (map (\<lambda>kv. '' '' @ toString env (snd kv))
                                       (filter (\<lambda>kv. fst kv = ''class'') ?es)))"
    unfolding computeDocDeco_attrs_fold by (rule fold_class) simp
  have ce: "map_of (computeDocDeco_attrs env vw) ''contenteditable''
      = Some (if editable vw then ''true'' else ''false'')"
    unfolding computeDocDeco_attrs_fold by (subst fold_fixed) simp_all
  have nn: "map_of (computeDocDeco_attrs env vw) ''nodeName'' = None"
    unfolding computeDocDeco_attrs_fold by (subst fold_fixed) simp_all
  show ?thesis
    using cls ce nn by (simp add: computeDocDeco_def first_token)
qed

text \<open>
  C7, as the code has it. The \<^verbatim>\<open>class\<close> of the document node is \<^verbatim>\<open>ProseMirror\<close>
  followed by every registrant's class in resolution order, each after a space. Any other
  attribute, \<^verbatim>\<open>contenteditable\<close> and \<^verbatim>\<open>nodeName\<close> apart, has the first non-empty value
  given for it in resolution order: a non-empty value is never replaced, an empty one is
  replaced by the next value given.
\<close>

theorem computeDocDeco_attrs_merge:
  "map_of (computeDocDeco_attrs env vw) ''class'' =
     Some (''ProseMirror'' @ concat (map (\<lambda>kv. '' '' @ toString env (snd kv))
                                       (filter (\<lambda>kv. fst kv = ''class'')
                                          (attribute_entries env vw))))
   \<and> (attr \<noteq> ''class'' \<and> attr \<noteq> ''contenteditable'' \<and> attr \<noteq> ''nodeName'' \<longrightarrow>
        map_of (computeDocDeco_attrs env vw) attr
          = first_nonempty env attr (attribute_entries env vw))"
proof -
  have cls: "map_of (computeDocDeco_attrs env vw) ''class'' =
     Some (''ProseMirror'' @ concat (map (\<lambda>kv. '' '' @ toString env (snd kv))
                                       (filter (\<lambda>kv. fst kv = ''class'')
                                          (attribute_entries env vw))))"
    unfolding computeDocDeco_attrs_fold by (rule fold_class) simp
  have other: "map_of (computeDocDeco_attrs env vw) attr
          = first_nonempty env attr (attribute_entries env vw)"
    if "attr \<noteq> ''class''" "attr \<noteq> ''contenteditable''" "attr \<noteq> ''nodeName''"
    unfolding computeDocDeco_attrs_fold
    using that by (subst fold_first_nonempty) simp_all
  from cls other show ?thesis by blast
qed

lemma ex_attribute_entries:
  "attribute_entries ex_env ex_view =
     [(''class'', JStr ''a''), (''title'', JStr []),
      (''class'', JStr ''b''), (''title'', JStr ''x'')]"
  by (simp add: attribute_entries_def prop_values_def registrant_entries_def get_prop_def
        ex_view_def ex_state_def ex_plugin_def)

theorem computeDocDeco_attrs_merge_witness:
  "map_of (computeDocDeco_attrs ex_env ex_view) ''class'' = Some ''ProseMirror a b''
   \<and> map_of (computeDocDeco_attrs ex_env ex_view) ''title'' = Some ''x''"
  using computeDocDeco_attrs_merge [of ex_env ex_view "''title''"]
  by (simp add: ex_attribute_entries first_nonempty_def)

text \<open>
  C7 as stated fails: the first registrant gives \<^verbatim>\<open>title\<close> the empty string as its
  value, and the plugin after it changes it to \<^verbatim>\<open>x\<close>.
\<close>

theorem first_wins_counterexample:
  "first_provided ex_env ''title'' (attribute_entries ex_env ex_view) = Some []
   \<and> map_of (computeDocDeco_attrs ex_env ex_view) ''title'' = Some ''x''"
proof -
  have "editable ex_view = True" by (simp add: ex_view_def)
  then show ?thesis
    by (simp add: ex_attribute_entries first_provided_def computeDocDeco_attrs_fold
          merge_attr_def)
qed

section \<open>Running the computations\<close>

lemma return_apply [simp]: "return x s = (Inr x, s)" by (simp add: return_def)
lemma throw_apply [simp]: "throw e s = (Inl e, s)" by (simp add: throw_def)
lemma get_view_apply [simp]: "get_view s = (Inr (view s), s)" by (simp add: get_view_def)
lemma modify_view_apply [simp]: "modify_view f s = (Inr (), s\<lparr>view := f (view s)\<rparr>)"
  by (simp add: modify_view_def)
lemma andThen_Inr [simp]: "m s = (Inr x, s') \<Longrightarrow> andThen m f s = f x s'"
  by (simp add: andThen_def)
lemma andThen_Inl [simp]: "m s = (Inl e, s') \<Longrightarrow> andThen m f s = (Inl e, s')"
  by (simp add: andThen_def)
lemma perform_quiet: "raises env = (\<lambda>_. None) \<Longrightarrow> perform env opr r s = (Inr r, s\<lparr>trace := trace s @ [opr]\<rparr>)"
  by (simp add: perform_def)

section \<open>Each part of the update, when nothing throws\<close>

lemma stopComposition_quiet:
  assumes q: "raises env = (\<lambda>_. None)"
  shows "stopComposition env st s =
    (Inr (storedMarks st \<noteq> None \<and> composing (view s)),
     s\<lparr>view := (view s)\<lparr>composing := composing (view s) \<and> storedMarks st = None\<rparr>,
       trace := trace s @ (if storedMarks st \<noteq> None \<and> composing (view s) then [ClearComposition] else [])\<rparr>)"
  by (simp add: stopComposition_def clearComposition_def perform_quiet [OF q])

lemma reconfigure_quiet:
  assumes q: "raises env = (\<lambda>_. None)"
  shows "reconfigure env s =
    (Inr (changedNodeViews (buildNodeViews (view s)) (nodeViews (view s))),
     s\<lparr>view := (view s)\<lparr>nodeViews :=
                 if changedNodeViews (buildNodeViews (view s)) (nodeViews (view s))
                 then buildNodeViews (view s) else nodeViews (view s)\<rparr>,
       trace := trace s @ [EnsureListeners]\<rparr>)"
  by (simp add: reconfigure_def perform_quiet [OF q])

lemma updateCursorWrapper_quiet:
  assumes q: "raises env = (\<lambda>_. None)"
  shows "updateCursorWrapper env s =
    (Inr (), s\<lparr>view := (view s)\<lparr>cursorWrapper := cursorWrapper_of env (view s)\<rparr>,
               trace := trace s @ cursorWrapper_ops env (view s)\<rparr>)"
  by (simp add: updateCursorWrapper_def perform_quiet [OF q] cursorWrapper_of_def
        cursorWrapper_ops_def split: option.splits)

lemma needsUpdateDoc_quiet:
  assumes q: "raises env = (\<lambda>_. None)"
  shows "needsUpdateDoc env redraw d outerDeco innerDeco s =
    (Inr (redraw \<or> \<not> matchesNode_ret env),
     s\<lparr>trace := trace s @ (if redraw then [] else [MatchesNode d outerDeco innerDeco])\<rparr>)"
  by (simp add: needsUpdateDoc_def perform_quiet [OF q])

lemma snapshotScroll_quiet:
  assumes q: "raises env = (\<lambda>_. None)"
  shows "snapshotScroll env scroll updateSel s =
    (Inr (if scroll = ''preserve'' \<and> updateSel \<and> overflowAnchor env = None
          then Some (storeScrollPos_ret env) else None),
     s\<lparr>trace := trace s @ (if scroll = ''preserve'' \<and> updateSel \<and> overflowAnchor env = None
                            then [StoreScrollPos] else [])\<rparr>)"
  by (simp add: snapshotScroll_def perform_quiet [OF q])

lemma trackFocusNode_quiet:
  assumes q: "raises env = (\<lambda>_. None)"
  shows "trackFocusNode env s =
    (Inr (if browser_chrome env then focusNode_before env else None),
     s\<lparr>view := (view s)\<lparr>trackWrites := if browser_chrome env then focusNode_before env
                                         else trackWrites (view s)\<rparr>,
       trace := trace s @ (if browser_chrome env then [GetSelection] else [])\<rparr>)"
  by (simp add: trackFocusNode_def perform_quiet [OF q])

lemma patchOrRebuild_quiet:
  assumes q: "raises env = (\<lambda>_. None)"
  shows "patchOrRebuild env st redraw outerDeco innerDeco s =
    (Inr (),
     s\<lparr>view := (view s)\<lparr>trackWrites := if patch_wrote env redraw then None
                                         else trackWrites (view s),
                         docView := if patch_rebuilds env redraw then docViewDesc_ret env
                                    else docView (view s)\<rparr>,
       trace := trace s @ patch_ops env st redraw outerDeco innerDeco\<rparr>)"
  by (simp add: patchOrRebuild_def perform_quiet [OF q] patch_docView_def docViewDesc_def
        patch_ops_def patch_wrote_def patch_rebuilds_def)

lemma updateDocView_quiet:
  assumes q: "raises env = (\<lambda>_. None)"
  shows "updateDocView env st redraw outerDeco innerDeco force s =
    (Inr (kludge_fires env redraw \<or> force),
     s\<lparr>view := (view s)\<lparr>trackWrites := if patch_wrote env redraw then None
                                         else if browser_chrome env then focusNode_before env
                                         else trackWrites (view s),
                         docView := if patch_rebuilds env redraw then docViewDesc_ret env
                                    else docView (view s)\<rparr>,
       trace := trace s @ (if browser_chrome env then [GetSelection] else [])
                @ patch_ops env st redraw outerDeco innerDeco\<rparr>)"
  by (auto simp: updateDocView_def trackFocusNode_quiet [OF q] patchOrRebuild_quiet [OF q]
        kludge_fires_def)

lemma needsFullWrite_quiet:
  assumes q: "raises env = (\<lambda>_. None)"
  shows "needsFullWrite env force s =
    (Inr (full_write env force (view s)),
     s\<lparr>trace := trace s @ check_ops env force (view s)\<rparr>)"
  by (simp add: needsFullWrite_def perform_quiet [OF q] full_write_def check_ops_def)

lemma writeSelection_quiet:
  assumes q: "raises env = (\<lambda>_. None)"
  shows "writeSelection env force full s = (Inr (), s\<lparr>trace := trace s @ write_ops force full\<rparr>)"
  by (simp add: writeSelection_def perform_quiet [OF q] write_ops_def)

lemma sync_view_fields [simp]:
  "mouseDown (sync_view env redraw updateDoc vw) = mouseDown vw"
  "composing (sync_view env redraw updateDoc vw) = composing vw"
  "state (sync_view env redraw updateDoc vw) = state vw"
  "view_props (sync_view env redraw updateDoc vw) = view_props vw"
  "pluginViews (sync_view env redraw updateDoc vw) = pluginViews vw"
  "editable (sync_view env redraw updateDoc vw) = editable vw"
  by (simp_all add: sync_view_def)

lemma sync_view_uses [simp]:
  "check_ops env force (sync_view env redraw updateDoc vw) = check_ops env force vw"
  "full_write env force (sync_view env redraw updateDoc vw) = full_write env force vw"
  by (simp_all add: check_ops_def full_write_def)

lemma updateDoc_branch_quiet:
  assumes q: "raises env = (\<lambda>_. None)"
  shows "(if updateDoc then updateDocView env st redraw outerDeco innerDeco force
          else return force) s =
    (Inr ((updateDoc \<and> kludge_fires env redraw) \<or> force),
     s\<lparr>view := sync_view env redraw updateDoc (view s),
       trace := trace s @ (if updateDoc then (if browser_chrome env then [GetSelection] else [])
                                             @ patch_ops env st redraw outerDeco innerDeco
                           else [])\<rparr>)"
  by (cases updateDoc) (simp_all add: updateDocView_quiet [OF q] sync_view_def)

lemma syncSelection_quiet:
  assumes q: "raises env = (\<lambda>_. None)"
  shows "syncSelection env prev st redraw updateDoc outerDeco innerDeco s =
    (Inr (),
     s\<lparr>view := sync_view env redraw updateDoc (view s),
       trace := trace s @ sync_ops env prev st redraw updateDoc outerDeco innerDeco (view s)\<rparr>)"
  by (simp add: syncSelection_def perform_quiet [OF q] updateDoc_branch_quiet [OF q]
        needsFullWrite_quiet [OF q] writeSelection_quiet [OF q] sync_ops_def sync_force_def
      split del: if_split)

lemma destroy_loop_quiet:
  assumes q: "raises env = (\<lambda>_. None)"
  shows "destroy_loop env pvs s =
    (Inr (),
     s\<lparr>view := (view s)\<lparr>pluginViews := (butlast ^^ length pvs) (pluginViews (view s))\<rparr>,
       trace := trace s @ map (\<lambda>pv. PluginViewDestroy (pv_key pv)) (filter has_destroy pvs)\<rparr>)"
proof (induction pvs arbitrary: s)
  case Nil
  show ?case by simp
next
  case (Cons pv pvs)
  show ?case by (simp add: Cons.IH perform_quiet [OF q] funpow_swap1)
qed

lemma butlast_all: "(butlast ^^ length xs) xs = []"
proof -
  have "length ((butlast ^^ n) xs) = length xs - n" for n
    by (induction n) simp_all
  then have "length ((butlast ^^ length xs) xs) = 0" by simp
  then show ?thesis by simp
qed

lemma destroyPluginViews_quiet:
  assumes q: "raises env = (\<lambda>_. None)"
  shows "destroyPluginViews env s =
    (Inr (),
     s\<lparr>view := (view s)\<lparr>pluginViews := []\<rparr>,
       trace := trace s @ map (\<lambda>pv. PluginViewDestroy (pv_key pv))
                            (filter has_destroy (rev (pluginViews (view s))))\<rparr>)"
  using butlast_all [of "pluginViews (view s)"]
  by (simp add: destroyPluginViews_def destroy_loop_quiet [OF q])

lemma create_loop_quiet:
  assumes q: "raises env = (\<lambda>_. None)"
  shows "create_loop env ps s =
    (Inr (),
     s\<lparr>view := (view s)\<lparr>pluginViews := pluginViews (view s)
                           @ map (pluginView_ret env) (List.map_filter spec_view ps)\<rparr>,
       trace := trace s @ map PluginViewCreate (List.map_filter spec_view ps)\<rparr>)"
proof (induction ps arbitrary: s)
  case Nil
  show ?case by (simp add: List.map_filter_simps)
next
  case (Cons p ps)
  show ?case
    by (cases "spec_view p") (simp_all add: Cons.IH perform_quiet [OF q] List.map_filter_simps)
qed

lemma update_loop_quiet:
  assumes q: "raises env = (\<lambda>_. None)"
  shows "update_loop env pvs s =
    (Inr (), s\<lparr>trace := trace s @ map (\<lambda>pv. PluginViewUpdate (pv_key pv)) (filter has_update pvs)\<rparr>)"
proof (induction pvs arbitrary: s)
  case Nil
  show ?case by simp
next
  case (Cons pv pvs)
  show ?case by (simp add: Cons.IH perform_quiet [OF q])
qed

lemma updatePluginViews_quiet:
  assumes q: "raises env = (\<lambda>_. None)"
  shows "updatePluginViews env (Some prev) s =
    (Inr (),
     s\<lparr>view := (view s)\<lparr>pluginViews := plugin_views env prev (view s)\<rparr>,
       trace := trace s @ plugin_ops prev (view s)\<rparr>)"
  by (simp add: updatePluginViews_def destroyPluginViews_quiet [OF q] create_loop_quiet [OF q]
        update_loop_quiet [OF q] plugin_ops_def plugin_views_def)

lemma call_handler_simps:
  "call_handler env (JFun k) = perform env (HandleScrollToSelection k) (handler_ret env k)"
  "call_handler env JUndefined = throw TypeError"
  "call_handler env JNull = throw TypeError"
  "call_handler env (JBool b) = throw TypeError"
  "call_handler env (JNum n) = throw TypeError"
  "call_handler env (JStr x) = throw TypeError"
  "call_handler env (JObj kvs) = throw TypeError"
  by (simp_all add: call_handler_def)

lemma resolve_handlers_quiet:
  assumes q: "raises env = (\<lambda>_. None)"
  shows "resolve (Some (call_handler env)) cs s =
    (fst (handler_run env cs), s\<lparr>trace := trace s @ snd (handler_run env cs)\<rparr>)"
proof (induction cs arbitrary: s)
  case Nil
  show ?case by simp
next
  case (Cons c cs)
  show ?case
    by (cases c) (simp_all add: apply_f_def call_handler_simps perform_quiet [OF q] Cons.IH)
qed

lemma scrollToSelectionNow_quiet:
  assumes q: "raises env = (\<lambda>_. None)"
  shows "scrollToSelectionNow env st s =
    (scrollTo_result env (view s), s\<lparr>trace := trace s @ scrollTo_ops env st (view s)\<rparr>)"
proof (cases "fst (handler_run env (prop_values (view s) ''handleScrollToSelection''))")
  case (Inl e)
  then show ?thesis
    by (simp add: scrollToSelectionNow_def perform_quiet [OF q] someProp_resolve
          resolve_handlers_quiet [OF q] scrollTo_result_def scrollTo_ops_def)
next
  case (Inr handled)
  then show ?thesis
    by (simp add: scrollToSelectionNow_def perform_quiet [OF q] someProp_resolve
          resolve_handlers_quiet [OF q] scrollTo_result_def scrollTo_ops_def)
qed

lemma resolveScroll_quiet:
  assumes q: "raises env = (\<lambda>_. None)"
  shows "resolveScroll env st scroll oldScrollPos s =
    (scroll_result env scroll (view s),
     s\<lparr>trace := trace s @ scroll_ops env st scroll oldScrollPos (view s)\<rparr>)"
  by (simp add: resolveScroll_def perform_quiet [OF q] scrollToSelectionNow_quiet [OF q]
        scroll_result_def scroll_ops_def split: option.splits)

lemma resolve_stateless:
  "resolve (Some (\<lambda>v s. (g v, s))) cs s = (first_hit g cs, s)"
proof (induction cs)
  case Nil
  show ?case by simp
next
  case (Cons c cs)
  show ?case by (cases "g c") (simp_all add: apply_f_def Cons.IH)
qed

lemma editable_callback:
  "(\<lambda>value. andThen (call_fn env value st) (\<lambda>r. return (JBool (r = JBool False))))
     = (\<lambda>value s. (editable_test env st value, s))"
  by (rule ext, rule ext) (simp add: call_fn_def editable_test_def split: jsval.splits)

lemma getEditable_result: "getEditable env vw s = (editable_result env vw, s)"
  by (cases "first_hit (editable_test env (state vw)) (prop_values vw ''editable'')")
     (simp_all add: getEditable_def someProp_resolve editable_callback resolve_stateless
        editable_result_def)

lemma reconfigure_branch_quiet:
  assumes q: "raises env = (\<lambda>_. None)"
  shows "(if rc then reconfigure env else return False) s =
    (Inr (rc \<and> changedNodeViews (buildNodeViews (view s)) (nodeViews (view s))),
     s\<lparr>view := (view s)\<lparr>nodeViews :=
                 if rc \<and> changedNodeViews (buildNodeViews (view s)) (nodeViews (view s))
                 then buildNodeViews (view s) else nodeViews (view s)\<rparr>,
       trace := trace s @ (if rc then [EnsureListeners] else [])\<rparr>)"
  by (cases rc) (simp_all add: reconfigure_quiet [OF q])

lemma sync_branch_quiet:
  assumes q: "raises env = (\<lambda>_. None)"
  shows "(if c then syncSelection env prev st redraw updateDoc outerDeco innerDeco
          else return ()) s =
    (Inr (),
     s\<lparr>view := if c then sync_view env redraw updateDoc (view s) else view s,
       trace := trace s @ (if c then sync_ops env prev st redraw updateDoc outerDeco innerDeco (view s)
                           else [])\<rparr>)"
  by (cases c) (simp_all add: syncSelection_quiet [OF q])

lemma updateStateInner_stuck:
  assumes q: "raises env = (\<lambda>_. None)"
    and e: "editable_result env (view_reconfigured st rc (view s)) = Inl x"
  shows "updateStateInner env st rc s =
    (Inl x, s\<lparr>view := view_reconfigured st rc (view s), trace := trace s @ prep_ops st rc (view s)\<rparr>)"
  using e
  by (simp add: updateStateInner_def stopComposition_quiet [OF q]
        reconfigure_branch_quiet [OF q] getEditable_result
        view_with_state_def view_reconfigured_def forcedRebuild_def prep_ops_def
      split del: if_split cong del: if_weak_cong)

lemma updateStateInner_quiet:
  assumes q: "raises env = (\<lambda>_. None)"
    and e: "editable_result env (view_reconfigured st rc (view s)) = Inr e"
  shows "updateStateInner env st rc s =
    (scroll_result env (scrollMode rc st (state (view s))) (view_after_update env st rc e (view s)),
     s\<lparr>view := view_after_update env st rc e (view s),
       trace := trace s @ prep_ops st rc (view s) @ rest_ops env st rc e (view s)\<rparr>)"
  using e
  by (simp add: updateStateInner_def stopComposition_quiet [OF q]
        reconfigure_branch_quiet [OF q] getEditable_result
        updateCursorWrapper_quiet [OF q] perform_quiet [OF q] needsUpdateDoc_quiet [OF q]
        snapshotScroll_quiet [OF q] sync_branch_quiet [OF q] updatePluginViews_quiet [OF q]
        resolveScroll_quiet [OF q]
        view_with_state_def view_reconfigured_def view_before_sync_def view_after_sync_def view_after_update_def forcedRebuild_def needsPatch_def
        needsResync_def takesSnapshot_def prep_ops_def rest_ops_def upd_sync_ops_def
        upd_scroll_ops_def
      split del: if_split cong del: if_weak_cong)

section \<open>A run that returns is a run in which nothing throws\<close>

lemma quiet_fields [simp]:
  "raises (quiet env) = (\<lambda>_. None)"
  "fn_call (quiet env) = fn_call env"
  "fn_text (quiet env) = fn_text env"
  "browser_ie (quiet env) = browser_ie env"
  "browser_chrome (quiet env) = browser_chrome env"
  "overflowAnchor (quiet env) = overflowAnchor env"
  "sel_eq (quiet env) = sel_eq env"
  "new_element (quiet env) = new_element env"
  "viewDecorations_ret (quiet env) = viewDecorations_ret env"
  "matchesNode_ret (quiet env) = matchesNode_ret env"
  "storeScrollPos_ret (quiet env) = storeScrollPos_ret env"
  "focusNode_before (quiet env) = focusNode_before env"
  "update_ret (quiet env) = update_ret env"
  "update_wrote (quiet env) = update_wrote env"
  "docViewDesc_ret (quiet env) = docViewDesc_ret env"
  "docViewDesc_wrote (quiet env) = docViewDesc_wrote env"
  "currentSelection_eq_ret (quiet env) = currentSelection_eq_ret env"
  "anchorInRightPlace_ret (quiet env) = anchorInRightPlace_ret env"
  "pluginView_ret (quiet env) = pluginView_ret env"
  "focusNode_after (quiet env) = focusNode_after env"
  "handler_ret (quiet env) = handler_ret env"
  "domAfterPos_ret (quiet env) = domAfterPos_ret env"
  "boundingRect_ret (quiet env) = boundingRect_ret env"
  "coordsAtPos_ret (quiet env) = coordsAtPos_ret env"
  by (simp_all add: quiet_def)

lemma normal_le_refl: "normal_le m m"
  by (simp add: normal_le_def)

lemma normal_le_andThen:
  assumes "normal_le m m'" and "\<And>x. normal_le (f x) (f' x)"
  shows "normal_le (andThen m f) (andThen m' f')"
  unfolding normal_le_def
proof (intro allI impI)
  fix s r s'
  assume run: "andThen m f s = (Inr r, s')"
  obtain a s1 where ms: "m s = (a, s1)" by (cases "m s")
  show "andThen m' f' s = (Inr r, s')"
  proof (cases a)
    case (Inl e)
    with ms run show ?thesis by (simp add: andThen_def)
  next
    case (Inr x)
    with ms run have fx: "f x s1 = (Inr r, s')" by (simp add: andThen_def)
    from ms Inr assms(1) have "m' s = (Inr x, s1)" by (simp add: normal_le_def)
    moreover from fx assms(2) have "f' x s1 = (Inr r, s')" by (simp add: normal_le_def)
    ultimately show ?thesis by (simp add: andThen_def)
  qed
qed

lemma normal_le_perform: "normal_le (perform env opr r) (perform (quiet env) opr r)"
  by (auto simp: normal_le_def perform_def split: option.splits)

lemma normal_le_if:
  "normal_le a a' \<Longrightarrow> normal_le b b' \<Longrightarrow> normal_le (if c then a else b) (if c then a' else b')"
  by simp

lemma normal_le_option:
  "normal_le a a' \<Longrightarrow> (\<And>x. normal_le (b x) (b' x)) \<Longrightarrow>
   normal_le (case v of None \<Rightarrow> a | Some x \<Rightarrow> b x) (case v of None \<Rightarrow> a' | Some x \<Rightarrow> b' x)"
  by (cases v) simp_all

lemmas normal_le_intros =
  normal_le_andThen normal_le_perform normal_le_if normal_le_option normal_le_refl

lemma toString_quiet [simp]: "toString (quiet env) v = toString env v"
  by (cases v) simp_all

lemma merge_attr_quiet [simp]: "merge_attr (quiet env) = merge_attr env"
  by (rule ext, rule ext) (simp add: merge_attr_def Let_def cong del: if_weak_cong)

lemma attributes_callback_quiet [simp]:
  "attributes_callback (quiet env) vw = attributes_callback env vw"
  by (rule ext, rule ext)
     (simp add: attributes_callback_def cong: jsval.case_cong cong del: if_weak_cong)

lemma computeDocDeco_quiet [simp]: "computeDocDeco (quiet env) vw = computeDocDeco env vw"
  by (simp add: computeDocDeco_def computeDocDeco_attrs_def attributes_callback_def
        cong del: if_weak_cong)

lemma getEditable_quiet [simp]: "getEditable (quiet env) vw = getEditable env vw"
  by (simp add: getEditable_def call_fn_def cong: jsval.case_cong)

lemma stopComposition_le: "normal_le (stopComposition env st) (stopComposition (quiet env) st)"
  unfolding stopComposition_def clearComposition_def by (intro normal_le_intros)

lemma reconfigure_le: "normal_le (reconfigure env) (reconfigure (quiet env))"
  unfolding reconfigure_def by (intro normal_le_intros)

lemma updateCursorWrapper_le: "normal_le (updateCursorWrapper env) (updateCursorWrapper (quiet env))"
  unfolding updateCursorWrapper_def by (simp only: quiet_fields cong: if_cong option.case_cong, intro normal_le_intros)

lemma needsUpdateDoc_le:
  "normal_le (needsUpdateDoc env redraw d outerDeco innerDeco)
     (needsUpdateDoc (quiet env) redraw d outerDeco innerDeco)"
  unfolding needsUpdateDoc_def by (simp only: quiet_fields cong: if_cong option.case_cong, intro normal_le_intros)

lemma snapshotScroll_le:
  "normal_le (snapshotScroll env scroll updateSel) (snapshotScroll (quiet env) scroll updateSel)"
  unfolding snapshotScroll_def by (simp only: quiet_fields cong: if_cong option.case_cong, intro normal_le_intros)

lemma syncSelection_le:
  "normal_le (syncSelection env prev st redraw updateDoc outerDeco innerDeco)
     (syncSelection (quiet env) prev st redraw updateDoc outerDeco innerDeco)"
  unfolding syncSelection_def updateDocView_def trackFocusNode_def patchOrRebuild_def
    patch_docView_def docViewDesc_def needsFullWrite_def writeSelection_def
    contextForcesUpdate_def
  by (simp only: quiet_fields cong: if_cong option.case_cong, intro normal_le_intros)

lemma destroy_loop_le: "normal_le (destroy_loop env pvs) (destroy_loop (quiet env) pvs)"
proof (induction pvs)
  case Nil
  show ?case by (simp add: normal_le_refl)
next
  case (Cons pv pvs)
  show ?case unfolding destroy_loop.simps by (intro normal_le_intros Cons.IH)
qed

lemma create_loop_le: "normal_le (create_loop env ps) (create_loop (quiet env) ps)"
proof (induction ps)
  case Nil
  show ?case by (simp add: normal_le_refl)
next
  case (Cons p ps)
  show ?case unfolding create_loop.simps
    by (simp only: quiet_fields, intro normal_le_intros Cons.IH)
qed

lemma update_loop_le: "normal_le (update_loop env pvs) (update_loop (quiet env) pvs)"
proof (induction pvs)
  case Nil
  show ?case by (simp add: normal_le_refl)
next
  case (Cons pv pvs)
  show ?case unfolding update_loop.simps by (intro normal_le_intros Cons.IH)
qed

lemma updatePluginViews_le:
  "normal_le (updatePluginViews env prev) (updatePluginViews (quiet env) prev)"
  unfolding updatePluginViews_def destroyPluginViews_def
  by (intro normal_le_intros destroy_loop_le create_loop_le update_loop_le)

lemma call_handler_le: "normal_le (call_handler env f) (call_handler (quiet env) f)"
  by (cases f) (simp_all add: call_handler_simps normal_le_perform normal_le_refl)

lemma resolve_le:
  assumes "\<And>v. normal_le (f v) (f' v)"
  shows "normal_le (resolve (Some f) cs) (resolve (Some f') cs)"
proof (induction cs)
  case Nil
  show ?case by (simp add: normal_le_def)
next
  case (Cons c cs)
  have "normal_le (andThen (f c) (\<lambda>value. if truthy value then return value else resolve (Some f) cs))
          (andThen (f' c) (\<lambda>value. if truthy value then return value else resolve (Some f') cs))"
    by (intro normal_le_intros assms Cons.IH)
  then show ?case by (simp add: normal_le_def apply_f_def)
qed

lemma someProp_le:
  assumes "\<And>v. normal_le (f v) (f' v)"
  shows "normal_le (someProp vw name (Some f)) (someProp vw name (Some f'))"
  using resolve_le [where f = f and f' = f' and cs = "prop_values vw name", OF assms]
  by (simp add: normal_le_def someProp_resolve)

lemma resolveScroll_le:
  "normal_le (resolveScroll env st scroll oldScrollPos) (resolveScroll (quiet env) st scroll oldScrollPos)"
  unfolding resolveScroll_def scrollToSelectionNow_def
  by (simp only: quiet_fields cong: if_cong option.case_cong,
      intro normal_le_intros someProp_le call_handler_le)

lemma updateStateInner_le:
  "normal_le (updateStateInner env st rc) (updateStateInner (quiet env) st rc)"
  unfolding updateStateInner_def
  by (simp only: quiet_fields computeDocDeco_quiet getEditable_quiet cong: if_cong,
      intro normal_le_intros stopComposition_le reconfigure_le updateCursorWrapper_le
        needsUpdateDoc_le snapshotScroll_le syncSelection_le updatePluginViews_le
        resolveScroll_le)


lemma summaries_quiet [simp]:
  "cursorWrapper_of (quiet env) = cursorWrapper_of env"
  "cursorWrapper_ops (quiet env) = cursorWrapper_ops env"
  "patch_rebuilds (quiet env) = patch_rebuilds env"
  "check_ops (quiet env) = check_ops env"
  "full_write (quiet env) = full_write env"
  "contextForcesUpdate (quiet env) = contextForcesUpdate env"
  "plugin_views (quiet env) = plugin_views env"
  "editable_test (quiet env) = editable_test env"
  by (rule ext | simp add: cursorWrapper_of_def cursorWrapper_ops_def patch_rebuilds_def
        check_ops_def full_write_def contextForcesUpdate_def plugin_views_def editable_test_def
        cong: if_cong option.case_cong jsval.case_cong)+

lemma patch_quiet [simp]:
  "patch_wrote (quiet env) = patch_wrote env"
  "patch_ops (quiet env) = patch_ops env"
  by (rule ext | simp add: patch_wrote_def patch_ops_def cong: if_cong)+

lemma kludge_quiet [simp]: "kludge_fires (quiet env) = kludge_fires env"
  by (rule ext) (simp add: kludge_fires_def)

lemma sync_quiet [simp]:
  "sync_force (quiet env) = sync_force env"
  "sync_view (quiet env) = sync_view env"
  by (rule ext | simp add: sync_force_def sync_view_def cong: if_cong)+

lemma sync_ops_quiet [simp]: "sync_ops (quiet env) = sync_ops env"
  by (rule ext | simp add: sync_ops_def cong: if_cong)+

lemma handler_run_quiet [simp]: "handler_run (quiet env) cs = handler_run env cs"
  by (induction cs) (simp_all cong: jsval.case_cong if_cong)

lemma scroll_quiet [simp]:
  "scrollTo_result (quiet env) = scrollTo_result env"
  "scrollTo_ops (quiet env) = scrollTo_ops env"
  by (rule ext | simp add: scrollTo_result_def scrollTo_ops_def cong: if_cong sum.case_cong)+

lemma scroll_quiet2 [simp]:
  "scroll_result (quiet env) = scroll_result env"
  "scroll_ops (quiet env) = scroll_ops env"
  by (rule ext | simp add: scroll_result_def scroll_ops_def cong: if_cong)+

lemma editable_result_quiet [simp]: "editable_result (quiet env) = editable_result env"
  by (rule ext) (simp add: editable_result_def)

lemma upd_quiet [simp]:
  "view_before_sync (quiet env) = view_before_sync env"
  "needsPatch (quiet env) = needsPatch env"
  by (rule ext | simp add: view_before_sync_def needsPatch_def)+

lemma upd_quiet2 [simp]:
  "needsResync (quiet env) = needsResync env"
  by (rule ext | simp add: needsResync_def)+

lemma upd_quiet3 [simp]:
  "takesSnapshot (quiet env) = takesSnapshot env"
  "view_after_sync (quiet env) = view_after_sync env"
  by (rule ext | simp add: takesSnapshot_def view_after_sync_def)+

lemma upd_quiet4 [simp]:
  "view_after_update (quiet env) = view_after_update env"
  "upd_sync_ops (quiet env) = upd_sync_ops env"
  by (rule ext | simp add: view_after_update_def upd_sync_ops_def)+

lemma upd_quiet5 [simp]:
  "upd_scroll_ops (quiet env) = upd_scroll_ops env"
  by (rule ext | simp add: upd_scroll_ops_def)+

lemma rest_ops_quiet [simp]: "rest_ops (quiet env) = rest_ops env"
  by (rule ext | simp add: rest_ops_def)+

text \<open>
  The update that returns: the view it leaves and the operations it has performed.
\<close>

lemma updateStateInner_returns:
  assumes run: "updateStateInner env st rc s = (Inr u, s')"
  shows "\<exists>e. editable_result env (view_reconfigured st rc (view s)) = Inr e
     \<and> scroll_result env (scrollMode rc st (state (view s)))
           (view_after_update env st rc e (view s)) = Inr u
     \<and> view s' = view_after_update env st rc e (view s)
     \<and> trace s' = trace s @ prep_ops st rc (view s) @ rest_ops env st rc e (view s)"
proof -
  have q: "raises (quiet env) = (\<lambda>_. None)" by simp
  from run updateStateInner_le [of env st rc]
  have qrun: "updateStateInner (quiet env) st rc s = (Inr u, s')"
    by (simp add: normal_le_def)
  show ?thesis
  proof (cases "editable_result env (view_reconfigured st rc (view s))")
    case (Inl x)
    with updateStateInner_stuck [OF q, of st rc s x] qrun show ?thesis by simp
  next
    case (Inr e)
    with updateStateInner_quiet [OF q, of st rc s e] qrun show ?thesis by auto
  qed
qed

section \<open>The operations of an update, part by part\<close>

lemma prepare_ops_kinds: "list_all in_prepare (prepare_ops env st rc e vw)"
  by (simp add: prepare_ops_def prep_ops_def cursorWrapper_ops_def split: option.splits)

lemma sync_ops_kinds: "list_all in_sync (sync_ops env prev st redraw updateDoc outerDeco innerDeco vw)"
  by (simp add: sync_ops_def patch_ops_def check_ops_def write_ops_def)

lemma upd_sync_ops_kinds: "list_all in_sync (upd_sync_ops env st rc e vw)"
  by (simp add: upd_sync_ops_def sync_ops_kinds)

lemma plugin_ops_kinds: "list_all in_plugins (plugin_ops prev vw)"
  by (auto simp: plugin_ops_def list_all_iff)

lemma handler_run_kinds: "list_all in_scroll (snd (handler_run env cs))"
  by (induction cs) (simp_all split: jsval.splits)

lemma scroll_ops_kinds: "list_all in_scroll (scroll_ops env st scroll oldScrollPos vw)"
  by (simp add: scroll_ops_def scrollTo_ops_def handler_run_kinds split: option.splits sum.splits)

lemma upd_scroll_ops_kinds: "list_all in_scroll (upd_scroll_ops env st rc e vw)"
  by (simp add: upd_scroll_ops_def scroll_ops_kinds)

lemma updateStateInner_trace:
  assumes run: "updateStateInner env st rc \<lparr>view = vw, trace = []\<rparr> = (Inr u, s')"
  shows "\<exists>e. editable_result env (view_reconfigured st rc vw) = Inr e
     \<and> scroll_result env (scrollMode rc st (state vw)) (view_after_update env st rc e vw) = Inr u
     \<and> view s' = view_after_update env st rc e vw
     \<and> trace s' = prepare_ops env st rc e vw
         @ (if takesSnapshot env st rc vw then [StoreScrollPos] else [])
         @ upd_sync_ops env st rc e vw
         @ plugin_ops (state vw) (view_after_sync env st rc e vw)
         @ upd_scroll_ops env st rc e vw"
  using updateStateInner_returns [OF run] by (auto simp: rest_ops_def prepare_ops_def)

lemma in_prepare_no_mutation: "in_prepare opr \<Longrightarrow> \<not> is_mutation opr"
  by (cases opr) simp_all

lemma not_in_kinds: "list_all P xs \<Longrightarrow> \<not> P x \<Longrightarrow> x \<notin> set xs"
  by (auto simp: list_all_iff)

section \<open>The scroll snapshot\<close>

text \<open>
  C5, as the code has it. In every update that returns, \<^verbatim>\<open>storeScrollPos\<close> is called exactly
  when the selection needs a resync, the scroll mode is \<^verbatim>\<open>preserve\<close> and the
  \<^verbatim>\<open>overflowAnchor\<close> style is absent; whether the tree is being patched plays no part.
  When it is called, nothing has been written to the rendered tree or the selection before it.
\<close>

theorem snapshot_exactly_when:
  assumes run: "updateStateInner env st rc \<lparr>view = vw, trace = []\<rparr> = (Inr u, s')"
  shows "(StoreScrollPos \<in> set (trace s')) =
           (needsResync env st rc vw \<and> scrollMode rc st (state vw) = ''preserve''
            \<and> overflowAnchor env = None)
     \<and> (StoreScrollPos \<in> set (trace s') \<longrightarrow>
          \<not> list_ex is_mutation (takeWhile (\<lambda>opr. opr \<noteq> StoreScrollPos) (trace s')))"
proof -
  from updateStateInner_trace [OF run] obtain e where
    tr: "trace s' = prepare_ops env st rc e vw
         @ (if takesSnapshot env st rc vw then [StoreScrollPos] else [])
         @ upd_sync_ops env st rc e vw
         @ plugin_ops (state vw) (view_after_sync env st rc e vw)
         @ upd_scroll_ops env st rc e vw" by blast
  have a: "StoreScrollPos \<notin> set (prepare_ops env st rc e vw)"
    by (rule not_in_kinds [OF prepare_ops_kinds]) simp
  have b: "StoreScrollPos \<notin> set (upd_sync_ops env st rc e vw)"
    by (rule not_in_kinds [OF upd_sync_ops_kinds]) simp
  have c: "StoreScrollPos \<notin> set (plugin_ops (state vw) (view_after_sync env st rc e vw))"
    by (rule not_in_kinds [OF plugin_ops_kinds]) simp
  have d: "StoreScrollPos \<notin> set (upd_scroll_ops env st rc e vw)"
    by (rule not_in_kinds [OF upd_scroll_ops_kinds]) simp
  have mem: "(StoreScrollPos \<in> set (trace s')) = takesSnapshot env st rc vw"
    using a b c d by (simp add: tr)
  have nomut: "\<not> list_ex is_mutation (prepare_ops env st rc e vw)"
    using prepare_ops_kinds [of env st rc e vw]
    by (auto simp: list_all_iff list_ex_iff dest: in_prepare_no_mutation)
  have tw: "takeWhile (\<lambda>opr. opr \<noteq> StoreScrollPos) (prepare_ops env st rc e vw @ StoreScrollPos # rest)
      = prepare_ops env st rc e vw" for rest
    using a by (subst takeWhile_append2) auto
  show ?thesis
  proof (cases "takesSnapshot env st rc vw")
    case True
    with tw nomut mem show ?thesis by (auto simp: tr takesSnapshot_def)
  next
    case False
    with mem show ?thesis by (auto simp: takesSnapshot_def)
  qed
qed

section \<open>The sample update\<close>

lemma run_returns:
  assumes q: "raises env = (\<lambda>_. None)"
    and e: "editable_result env (view_reconfigured st rc vw) = Inr e"
    and sc: "scroll_result env (scrollMode rc st (state vw)) (view_after_update env st rc e vw) = Inr ()"
  shows "updateStateInner env st rc \<lparr>view = vw, trace = []\<rparr>
     = (Inr (), snd (updateStateInner env st rc \<lparr>view = vw, trace = []\<rparr>))"
  using updateStateInner_quiet [OF q, of st rc "\<lparr>view = vw, trace = []\<rparr>" e] e sc by simp

lemma prop_values_upd [simp]:
  "prop_values (view_with_state st vw) name = prop_values (vw\<lparr>state := st\<rparr>) name"
  "prop_values (view_reconfigured st rc vw) name = prop_values (vw\<lparr>state := st\<rparr>) name"
  "prop_values (view_before_sync env st rc e vw) name = prop_values (vw\<lparr>state := st\<rparr>) name"
  "prop_values (view_after_sync env st rc e vw) name = prop_values (vw\<lparr>state := st\<rparr>) name"
  "prop_values (view_after_update env st rc e vw) name = prop_values (vw\<lparr>state := st\<rparr>) name"
  by (simp_all add: prop_values_def view_with_state_def view_reconfigured_def
        view_before_sync_def view_after_sync_def view_after_update_def sync_view_def)

lemma state_upd [simp]:
  "state (view_reconfigured st rc vw) = st"
  "state (view_before_sync env st rc e vw) = st"
  "state (view_after_sync env st rc e vw) = st"
  "state (view_after_update env st rc e vw) = st"
  by (simp_all add: view_with_state_def view_reconfigured_def
        view_before_sync_def view_after_sync_def view_after_update_def sync_view_def)

lemma composing_upd [simp]:
  "composing (view_reconfigured st rc vw) = (composing vw \<and> storedMarks st = None)"
  "composing (view_before_sync env st rc e vw) = (composing vw \<and> storedMarks st = None)"
  "composing (view_after_sync env st rc e vw) = (composing vw \<and> storedMarks st = None)"
  "composing (view_after_update env st rc e vw) = (composing vw \<and> storedMarks st = None)"
  by (simp_all add: view_with_state_def view_reconfigured_def
        view_before_sync_def view_after_sync_def view_after_update_def sync_view_def)

lemma ex_env_fields [simp]:
  "raises ex_env = (\<lambda>_. None)"
  "browser_ie ex_env = False"
  "browser_chrome ex_env = True"
  "overflowAnchor ex_env = None"
  "matchesNode_ret ex_env = False"
  "storeScrollPos_ret ex_env = 5"
  "focusNode_before ex_env = Some 3"
  "update_ret ex_env = False"
  "update_wrote ex_env = False"
  "docViewDesc_ret ex_env = 9"
  "docViewDesc_wrote ex_env = True"
  "viewDecorations_ret ex_env = 0"
  "focusNode_after ex_env = None"
  "coordsAtPos_ret ex_env p = \<lparr>left = int p, right = int p, top = 0, bottom = 20\<rparr>"
  "domAfterPos_ret ex_env p = p + 10"
  "boundingRect_ret ex_env n = \<lparr>left = 0, right = 40, top = int n, bottom = int n + 20\<rparr>"
  "sel_eq ex_env a b = (pos (anchor_r a) = pos (anchor_r b) \<and> sel_head a = sel_head b)"
  by (simp_all add: ex_env_def)

lemma ex_view_fields [simp]:
  "state ex_view = ex_state"
  "editable ex_view = True"
  "composing ex_view = False"
  "markCursor ex_view = None"
  "nodeViews ex_view = []"
  "docView ex_view = 0"
  "trackWrites ex_view = None"
  "mouseDown ex_view = False"
  "pluginViews ex_view = []"
  by (simp_all add: ex_view_def)

lemma ex_state_fields [simp]:
  "selection ex_state = sel_first"
  "storedMarks ex_state = None"
  "plugins ex_state = [ex_plugin]"
  "plugins_ref ex_state = 0"
  "scrollToSelection ex_state = 0"
  "doc ex_state = \<lparr>node_key = 0, content_size = 8\<rparr>"
  by (simp_all add: ex_state_def)

lemma ex_quiet: "raises ex_env = (\<lambda>_. None)"
  by simp

lemma ex_no_editable: "prop_values (ex_view\<lparr>state := st\<rparr>) ''editable'' = []"
  if "list_all (\<lambda>p. map_of (props p) ''editable'' = None) (plugins st)"
  using that
  by (simp add: prop_values_def ex_view_def get_prop_def filter_empty_conv list_all_iff
      split: option.splits)

lemma ex_editable: "editable_result env (view_reconfigured ex_state rc ex_view) = Inr True"
  by (simp add: editable_result_def ex_no_editable ex_plugin_def)

lemma ex_run:
  "updateStateInner ex_env ex_state False \<lparr>view = ex_view, trace = []\<rparr>
     = (Inr (), snd (updateStateInner ex_env ex_state False \<lparr>view = ex_view, trace = []\<rparr>))"
  by (rule run_returns [OF ex_quiet ex_editable])
     (simp add: scroll_result_def scrollMode_def)

theorem snapshot_exactly_when_witness:
  "fst (updateStateInner ex_env ex_state False \<lparr>view = ex_view, trace = []\<rparr>) = Inr ()
   \<and> StoreScrollPos \<in> set (trace (snd (updateStateInner ex_env ex_state False
                                          \<lparr>view = ex_view, trace = []\<rparr>)))"
proof -
  have "needsResync ex_env ex_state False ex_view"
    by (simp add: needsResync_def needsPatch_def)
  moreover have "scrollMode False ex_state (state ex_view) = ''preserve''"
    by (simp add: scrollMode_def)
  moreover have "overflowAnchor ex_env = None"
    by simp
  ultimately show ?thesis
    using snapshot_exactly_when [OF ex_run] ex_run by (metis fst_conv)
qed

text \<open>
  C5 as stated fails: in the sample update the tree needs patching, and the snapshot is
  taken all the same.
\<close>

theorem snapshot_while_patching_counterexample:
  "fst (updateStateInner ex_env ex_state False \<lparr>view = ex_view, trace = []\<rparr>) = Inr ()
   \<and> needsPatch ex_env ex_state False ex_view
   \<and> StoreScrollPos \<in> set (trace (snd (updateStateInner ex_env ex_state False
                                          \<lparr>view = ex_view, trace = []\<rparr>)))"
proof -
  have p: "needsPatch ex_env ex_state False ex_view"
    by (simp add: needsPatch_def)
  have t: "takesSnapshot ex_env ex_state False ex_view"
    by (simp add: takesSnapshot_def needsResync_def p scrollMode_def)
  from updateStateInner_trace [OF ex_run] t
  have "StoreScrollPos \<in> set (trace (snd (updateStateInner ex_env ex_state False
                                          \<lparr>view = ex_view, trace = []\<rparr>)))"
    by auto
  with p ex_run show ?thesis by (metis fst_conv)
qed

section \<open>Scrolling after the update\<close>

lemma filter_none: "(\<And>x. x \<in> set xs \<Longrightarrow> \<not> P x) \<Longrightarrow> filter P xs = []"
  by (induction xs) auto

lemma no_scroll_effect:
  "in_prepare opr \<Longrightarrow> \<not> is_scroll_effect opr"
  "in_sync opr \<Longrightarrow> \<not> is_scroll_effect opr"
  "in_plugins opr \<Longrightarrow> \<not> is_scroll_effect opr"
  by (cases opr; simp)+

lemma handler_run_scroll_effects:
  "filter is_scroll_effect (snd (handler_run env cs)) = snd (handler_run env cs)"
  by (induction cs) (simp_all split: jsval.splits)

lemma trace_snapshot:
  assumes run: "updateStateInner env st rc \<lparr>view = vw, trace = []\<rparr> = (Inr u, s')"
  shows "(StoreScrollPos \<in> set (trace s')) = takesSnapshot env st rc vw"
proof -
  from updateStateInner_trace [OF run] obtain e where
    tr: "trace s' = prepare_ops env st rc e vw
         @ (if takesSnapshot env st rc vw then [StoreScrollPos] else [])
         @ upd_sync_ops env st rc e vw
         @ plugin_ops (state vw) (view_after_sync env st rc e vw)
         @ upd_scroll_ops env st rc e vw" by blast
  have "StoreScrollPos \<notin> set (prepare_ops env st rc e vw)"
    by (rule not_in_kinds [OF prepare_ops_kinds]) simp
  moreover have "StoreScrollPos \<notin> set (upd_sync_ops env st rc e vw)"
    by (rule not_in_kinds [OF upd_sync_ops_kinds]) simp
  moreover have "StoreScrollPos \<notin> set (plugin_ops (state vw) (view_after_sync env st rc e vw))"
    by (rule not_in_kinds [OF plugin_ops_kinds]) simp
  moreover have "StoreScrollPos \<notin> set (upd_scroll_ops env st rc e vw)"
    by (rule not_in_kinds [OF upd_scroll_ops_kinds]) simp
  ultimately show ?thesis by (simp add: tr)
qed

text \<open>
  C6. In every update that returns, the scroll effects are these and no others. On a
  reconfiguration, \<^verbatim>\<open>scrollTop\<close> is set to 0. Otherwise, when the new state's
  \<^verbatim>\<open>scrollToSelection\<close> is greater than the previous state's, the
  \<^verbatim>\<open>handleScrollToSelection\<close> handlers are called in resolution order up to the first that
  returns a truthy value, and when none does the selection is scrolled into view: for a node
  selection the node after the selection's \<^verbatim>\<open>from\<close> is looked up and what is scrolled into view
  is the bounding rectangle of that node; otherwise the coordinates at the selection's head
  are taken and what is scrolled into view is the rectangle they give. Otherwise, when the
  scroll position was stored, it is reset from what was stored.
\<close>

theorem scroll_resolution:
  assumes run: "updateStateInner env st rc \<lparr>view = vw, trace = []\<rparr> = (Inr u, s')"
  shows "filter is_scroll_effect (trace s') =
    (if rc then [SetScrollTop 0]
     else if scrollToSelection (state vw) < scrollToSelection st then
       snd (handler_run env (prop_values (vw\<lparr>state := st\<rparr>) ''handleScrollToSelection''))
       @ (case fst (handler_run env (prop_values (vw\<lparr>state := st\<rparr>) ''handleScrollToSelection'')) of
            Inl e \<Rightarrow> []
          | Inr handled \<Rightarrow>
              if truthy handled then []
              else if isNodeSelection (selection st) then
                [DomAfterPos (sel_from (selection st)),
                 GetBoundingClientRect (domAfterPos_ret env (sel_from (selection st))),
                 ScrollRectIntoView
                   (boundingRect_ret env (domAfterPos_ret env (sel_from (selection st))))
                   (focusNode_after env)]
              else
                [CoordsAtPos (sel_head (selection st)),
                 ScrollRectIntoView (coordsAtPos_ret env (sel_head (selection st)))
                   (focusNode_after env)])
     else if StoreScrollPos \<in> set (trace s') then [ResetScrollPos (storeScrollPos_ret env)]
     else [])"
proof -
  from updateStateInner_trace [OF run] obtain e where
    tr: "trace s' = prepare_ops env st rc e vw
         @ (if takesSnapshot env st rc vw then [StoreScrollPos] else [])
         @ upd_sync_ops env st rc e vw
         @ plugin_ops (state vw) (view_after_sync env st rc e vw)
         @ upd_scroll_ops env st rc e vw" by blast
  have a: "filter is_scroll_effect (prepare_ops env st rc e vw) = []"
    using prepare_ops_kinds [of env st rc e vw]
    by (intro filter_none) (auto simp: list_all_iff dest: no_scroll_effect)
  have b: "filter is_scroll_effect (upd_sync_ops env st rc e vw) = []"
    using upd_sync_ops_kinds [of env st rc e vw]
    by (intro filter_none) (auto simp: list_all_iff dest: no_scroll_effect)
  have c: "filter is_scroll_effect (plugin_ops (state vw) (view_after_sync env st rc e vw)) = []"
    using plugin_ops_kinds [of "state vw" "view_after_sync env st rc e vw"]
    by (intro filter_none) (auto simp: list_all_iff dest: no_scroll_effect)
  have only: "filter is_scroll_effect (trace s') = filter is_scroll_effect (upd_scroll_ops env st rc e vw)"
    by (simp add: tr a b c)
  show ?thesis
    unfolding only trace_snapshot [OF run]
    by (simp add: upd_scroll_ops_def scroll_ops_def scrollTo_ops_def scrollMode_def
          handler_run_scroll_effects split: sum.splits)
qed

lemma fst_of_run: "m = (r, snd m) \<Longrightarrow> fst m = r"
  by (metis fst_conv)

lemma ex_editable_any:
  "plugins st = [ex_plugin] \<Longrightarrow> editable_result env (view_reconfigured st rc ex_view) = Inr True"
  by (simp add: editable_result_def ex_no_editable ex_plugin_def)

lemma ex_no_handlers:
  "plugins st = [ex_plugin] \<Longrightarrow> prop_values (ex_view\<lparr>state := st\<rparr>) ''handleScrollToSelection'' = []"
  by (simp add: prop_values_def ex_view_def ex_plugin_def get_prop_def)

theorem scroll_resolution_witness:
  "fst (updateStateInner ex_env (ex_state\<lparr>scrollToSelection := 1\<rparr>) False
          \<lparr>view = ex_view, trace = []\<rparr>) = Inr ()
   \<and> filter is_scroll_effect
        (trace (snd (updateStateInner ex_env (ex_state\<lparr>scrollToSelection := 1\<rparr>) False
                       \<lparr>view = ex_view, trace = []\<rparr>)))
       = [CoordsAtPos 3, ScrollRectIntoView \<lparr>left = 3, right = 3, top = 0, bottom = 20\<rparr> None]"
proof -
  have run: "updateStateInner ex_env (ex_state\<lparr>scrollToSelection := 1\<rparr>) False
               \<lparr>view = ex_view, trace = []\<rparr>
     = (Inr (), snd (updateStateInner ex_env (ex_state\<lparr>scrollToSelection := 1\<rparr>) False
                       \<lparr>view = ex_view, trace = []\<rparr>))"
    by (rule run_returns [OF ex_quiet ex_editable_any])
       (simp_all add: scroll_result_def scrollTo_result_def ex_no_handlers)
  have t: "filter is_scroll_effect
        (trace (snd (updateStateInner ex_env (ex_state\<lparr>scrollToSelection := 1\<rparr>) False
                       \<lparr>view = ex_view, trace = []\<rparr>)))
       = [CoordsAtPos 3, ScrollRectIntoView \<lparr>left = 3, right = 3, top = 0, bottom = 20\<rparr> None]"
    using scroll_resolution [OF run] by (simp add: ex_no_handlers sel_first_def)
  from fst_of_run [OF run] t show ?thesis by (rule conjI)
qed

section \<open>The observer around the writes\<close>




lemma neutral_kinds:
  "in_prepare opr \<Longrightarrow> neutral opr"
  "in_plugins opr \<Longrightarrow> neutral opr"
  "in_scroll opr \<Longrightarrow> neutral opr"
  by (cases opr; simp add: neutral_def)+







lemma throwing_env_fields [simp]:
  "raises throwing_env (DocViewUpdate d outerDeco innerDeco) = Some (Thrown 0)"
  "raises throwing_env ViewDecorations = None"
  "raises throwing_env (MatchesNode d outerDeco innerDeco) = None"
  "raises throwing_env StoreScrollPos = None"
  "raises throwing_env ObserverStop = None"
  "raises throwing_env GetSelection = None"
  "browser_chrome throwing_env = True"
  "overflowAnchor throwing_env = None"
  "matchesNode_ret throwing_env = False"
  "viewDecorations_ret throwing_env = 0"
  "focusNode_before throwing_env = Some 3"
  "storeScrollPos_ret throwing_env = 5"
  by (simp_all add: throwing_env_def ex_env_def)






section \<open>Stored marks during a composition\<close>

lemma sync_ops_writes:
  "ObserverStop \<in> set (sync_ops env prev st redraw updateDoc outerDeco innerDeco vw)"
  "ObserverStart \<in> set (sync_ops env prev st redraw updateDoc outerDeco innerDeco vw)"
  "list_ex is_selection_write (sync_ops env prev st redraw updateDoc outerDeco innerDeco vw)"
  by (simp_all add: sync_ops_def write_ops_def)

text \<open>
  C2. In every update that returns, when the new state has stored marks and the view is
  composing, clearing the composition is the first thing the update does; the selection is
  then resynchronised (the observer stopped, the selection written, the observer started)
  whatever the document view's match and the comparison of the selections say; nothing is
  written to the rendered tree or the selection between the clearing and the stop of the
  observer; and the view is no longer composing afterwards.
\<close>

theorem stored_marks_end_composition:
  assumes run: "updateStateInner env st rc \<lparr>view = vw, trace = []\<rparr> = (Inr u, s')"
    and marks: "storedMarks st \<noteq> None"
    and comp: "composing vw"
  shows "\<exists>rest. trace s' = ClearComposition # rest
           \<and> ObserverStop \<in> set rest \<and> ObserverStart \<in> set rest
           \<and> list_ex is_selection_write rest
           \<and> \<not> list_ex is_mutation (takeWhile (\<lambda>opr. opr \<noteq> ObserverStop) rest)
           \<and> \<not> composing (view s')"
proof -
  from updateStateInner_trace [OF run] obtain e where
    vw: "view s' = view_after_update env st rc e vw" and
    tr: "trace s' = prepare_ops env st rc e vw
         @ (if takesSnapshot env st rc vw then [StoreScrollPos] else [])
         @ upd_sync_ops env st rc e vw
         @ plugin_ops (state vw) (view_after_sync env st rc e vw)
         @ upd_scroll_ops env st rc e vw" by blast
  let ?sync = "sync_ops env (state vw) st (forcedRebuild st rc vw) (needsPatch env st rc vw)
             (computeDocDeco env (view_before_sync env st rc e vw)) (viewDecorations_ret env)
             (view_before_sync env st rc e vw)"
  from marks comp have resync: "needsResync env st rc vw"
    by (simp add: needsResync_def)
  then have sync: "upd_sync_ops env st rc e vw = ?sync"
    by (simp add: upd_sync_ops_def)
  obtain pre where pre: "prepare_ops env st rc e vw = ClearComposition # pre"
    using marks comp by (auto simp: prepare_ops_def prep_ops_def)
  have "list_all in_prepare (ClearComposition # pre)"
    using prepare_ops_kinds [of env st rc e vw] by (simp add: pre)
  then have pre_kinds: "list_all in_prepare pre" by simp
  let ?before = "pre @ (if takesSnapshot env st rc vw then [StoreScrollPos] else [])"
  have quiet_before: "\<And>opr. opr \<in> set ?before \<Longrightarrow> opr \<noteq> ObserverStop \<and> \<not> is_mutation opr"
    using pre_kinds by (auto simp: list_all_iff dest: in_prepare_no_mutation split: if_splits)
  obtain inner where inner: "?sync = ObserverStop # inner"
    by (simp add: sync_ops_def)
  let ?rest = "?before @ ?sync @ plugin_ops (state vw) (view_after_sync env st rc e vw)
               @ upd_scroll_ops env st rc e vw"
  have t: "trace s' = ClearComposition # ?rest"
    by (simp add: tr pre sync)
  have tw: "takeWhile (\<lambda>opr. opr \<noteq> ObserverStop) ?rest = ?before"
    using quiet_before by (subst takeWhile_append2) (auto simp: inner)
  have "\<not> list_ex is_mutation ?before"
    using quiet_before by (auto simp: list_ex_iff)
  with tw have nomut: "\<not> list_ex is_mutation (takeWhile (\<lambda>opr. opr \<noteq> ObserverStop) ?rest)"
    by simp
  have mem: "ObserverStop \<in> set ?rest" "ObserverStart \<in> set ?rest"
    using sync_ops_writes(1,2) [of env "state vw" st "forcedRebuild st rc vw"
      "needsPatch env st rc vw" "computeDocDeco env (view_before_sync env st rc e vw)"
      "viewDecorations_ret env" "view_before_sync env st rc e vw"]
    by simp_all
  have wr: "list_ex is_selection_write ?rest"
    using sync_ops_writes(3) [of env "state vw" st "forcedRebuild st rc vw"
      "needsPatch env st rc vw" "computeDocDeco env (view_before_sync env st rc e vw)"
      "viewDecorations_ret env" "view_before_sync env st rc e vw"]
    by (auto simp: list_ex_iff)
  have "\<not> composing (view s')" using marks by (simp add: vw)
  with t mem wr nomut show ?thesis by blast
qed

lemma ex_marks_editable:
  "plugins st = [ex_plugin] \<Longrightarrow>
   editable_result env (view_reconfigured st rc (ex_view\<lparr>composing := True\<rparr>)) = Inr True"
  by (simp add: editable_result_def prop_values_def ex_view_def ex_plugin_def get_prop_def
        view_reconfigured_def view_with_state_def editable_test_def)

theorem stored_marks_end_composition_witness:
  "fst (updateStateInner (ex_env\<lparr>matchesNode_ret := True\<rparr>) (ex_state\<lparr>storedMarks := Some []\<rparr>) False
          \<lparr>view = ex_view\<lparr>composing := True\<rparr>, trace = []\<rparr>) = Inr ()
   \<and> hd (trace (snd (updateStateInner (ex_env\<lparr>matchesNode_ret := True\<rparr>)
                       (ex_state\<lparr>storedMarks := Some []\<rparr>) False
                       \<lparr>view = ex_view\<lparr>composing := True\<rparr>, trace = []\<rparr>))) = ClearComposition
   \<and> ObserverStop \<in> set (trace (snd (updateStateInner (ex_env\<lparr>matchesNode_ret := True\<rparr>)
                       (ex_state\<lparr>storedMarks := Some []\<rparr>) False
                       \<lparr>view = ex_view\<lparr>composing := True\<rparr>, trace = []\<rparr>)))"
proof -
  let ?run = "updateStateInner (ex_env\<lparr>matchesNode_ret := True\<rparr>)
                (ex_state\<lparr>storedMarks := Some []\<rparr>) False
                \<lparr>view = ex_view\<lparr>composing := True\<rparr>, trace = []\<rparr>"
  have run: "?run = (Inr (), snd ?run)"
    by (rule run_returns [OF _ ex_marks_editable])
       (simp_all add: scroll_result_def scrollMode_def)
  from stored_marks_end_composition [OF run] obtain rest where
    "trace (snd ?run) = ClearComposition # rest" "ObserverStop \<in> set rest"
    by auto
  then have "hd (trace (snd ?run)) = ClearComposition" "ObserverStop \<in> set (trace (snd ?run))"
    by simp_all
  with fst_of_run [OF run] show ?thesis by blast
qed

section \<open>The same state twice\<close>

text \<open>
  C4. After an update to a state has returned, updating to the same state through
  \<^verbatim>\<open>updateState\<close>, with the document view matching and the selection equal to itself,
  writes nothing to the rendered tree or the selection and does not stop the observer: the
  selection block is not entered.
\<close>

theorem same_state_twice:
  assumes first: "updateStateInner env1 st rc \<lparr>view = vw, trace = []\<rparr> = (Inr u1, s1)"
    and second: "updateState env2 st \<lparr>view = view s1, trace = []\<rparr> = (Inr u2, s2)"
    and matches: "matchesNode_ret env2"
    and refl: "sel_eq env2 (selection st) (selection st)"
  shows "\<not> list_ex is_mutation (trace s2) \<and> ObserverStop \<notin> set (trace s2)"
proof -
  from updateStateInner_trace [OF first] obtain e1 where
    v1: "view s1 = view_after_update env1 st rc e1 vw" by blast
  have st1: "state (view s1) = st" and comp1: "composing (view s1) = (composing vw \<and> storedMarks st = None)"
    by (simp_all add: v1)
  from second have run2: "updateStateInner env2 st False \<lparr>view = view s1, trace = []\<rparr> = (Inr u2, s2)"
    by (simp add: updateState_def st1)
  from updateStateInner_trace [OF run2] obtain e where
    tr: "trace s2 = prepare_ops env2 st False e (view s1)
         @ (if takesSnapshot env2 st False (view s1) then [StoreScrollPos] else [])
         @ upd_sync_ops env2 st False e (view s1)
         @ plugin_ops (state (view s1)) (view_after_sync env2 st False e (view s1))
         @ upd_scroll_ops env2 st False e (view s1)" by blast
  have noresync: "\<not> needsResync env2 st False (view s1)"
    using matches refl
    by (auto simp: needsResync_def needsPatch_def forcedRebuild_def st1 comp1)
  then have sync: "upd_sync_ops env2 st False e (view s1) = []"
    and snap: "\<not> takesSnapshot env2 st False (view s1)"
    by (simp_all add: upd_sync_ops_def takesSnapshot_def)
  have a: "\<And>opr. opr \<in> set (prepare_ops env2 st False e (view s1)) \<Longrightarrow> neutral opr"
    using prepare_ops_kinds [of env2 st False e "view s1"]
    by (auto simp: list_all_iff dest: neutral_kinds)
  have b: "\<And>opr. opr \<in> set (plugin_ops (state (view s1)) (view_after_sync env2 st False e (view s1)))
             \<Longrightarrow> neutral opr"
    using plugin_ops_kinds [of "state (view s1)" "view_after_sync env2 st False e (view s1)"]
    by (auto simp: list_all_iff dest: neutral_kinds)
  have c: "\<And>opr. opr \<in> set (upd_scroll_ops env2 st False e (view s1)) \<Longrightarrow> neutral opr"
    using upd_scroll_ops_kinds [of env2 st False e "view s1"]
    by (auto simp: list_all_iff dest: neutral_kinds)
  have "\<And>opr. opr \<in> set (trace s2) \<Longrightarrow> neutral opr"
    using a b c by (auto simp: tr sync snap)
  then show ?thesis
    by (auto simp: list_ex_iff neutral_def)
qed

lemma prop_values_after [simp]:
  "prop_values ((view_after_update env st0 rc e vw)\<lparr>state := st\<rparr>) name
     = prop_values (vw\<lparr>state := st\<rparr>) name"
  by (simp add: prop_values_def view_with_state_def view_reconfigured_def
        view_before_sync_def view_after_sync_def view_after_update_def sync_view_def)

lemma ex_view_after:
  "view (snd (updateStateInner ex_env ex_state False \<lparr>view = ex_view, trace = []\<rparr>))
     = view_after_update ex_env ex_state False True ex_view"
  using updateStateInner_quiet [OF ex_quiet, of ex_state False "\<lparr>view = ex_view, trace = []\<rparr>" True]
    ex_editable [of ex_env False]
  by simp

theorem same_state_twice_witness:
  "fst (updateStateInner ex_env ex_state False \<lparr>view = ex_view, trace = []\<rparr>) = Inr ()
   \<and> fst (updateState (ex_env\<lparr>matchesNode_ret := True\<rparr>) ex_state
            \<lparr>view = view (snd (updateStateInner ex_env ex_state False
                                  \<lparr>view = ex_view, trace = []\<rparr>)),
             trace = []\<rparr>) = Inr ()
   \<and> ObserverStop \<notin> set (trace (snd (updateState (ex_env\<lparr>matchesNode_ret := True\<rparr>) ex_state
            \<lparr>view = view (snd (updateStateInner ex_env ex_state False
                                  \<lparr>view = ex_view, trace = []\<rparr>)),
             trace = []\<rparr>)))
   \<and> \<not> list_ex is_mutation (trace (snd (updateState (ex_env\<lparr>matchesNode_ret := True\<rparr>) ex_state
            \<lparr>view = view (snd (updateStateInner ex_env ex_state False
                                  \<lparr>view = ex_view, trace = []\<rparr>)),
             trace = []\<rparr>)))"
proof -
  let ?s1 = "snd (updateStateInner ex_env ex_state False \<lparr>view = ex_view, trace = []\<rparr>)"
  let ?env2 = "ex_env\<lparr>matchesNode_ret := True\<rparr>"
  let ?second = "updateState ?env2 ex_state \<lparr>view = view ?s1, trace = []\<rparr>"
  have ed: "editable_result ?env2 (view_reconfigured ex_state False (view ?s1)) = Inr True"
    by (simp add: ex_view_after editable_result_def ex_no_editable ex_plugin_def)
  have inner: "updateStateInner ?env2 ex_state False \<lparr>view = view ?s1, trace = []\<rparr>
      = (Inr (), snd (updateStateInner ?env2 ex_state False \<lparr>view = view ?s1, trace = []\<rparr>))"
    by (rule run_returns [OF _ ed]) (simp_all add: scroll_result_def scrollMode_def ex_view_after)
  have same: "?second = updateStateInner ?env2 ex_state False \<lparr>view = view ?s1, trace = []\<rparr>"
    by (simp add: updateState_def ex_view_after)
  have second: "?second = (Inr (), snd ?second)"
    using inner by (simp only: same)
  have "matchesNode_ret ?env2" by simp
  moreover have "sel_eq ?env2 (selection ex_state) (selection ex_state)" by simp
  ultimately have "\<not> list_ex is_mutation (trace (snd ?second)) \<and> ObserverStop \<notin> set (trace (snd ?second))"
    using same_state_twice [OF ex_run second] by blast
  with fst_of_run [OF ex_run] fst_of_run [OF second] show ?thesis by blast
qed

section \<open>The forced selection update\<close>

lemma forced_write_in_sync:
  "(SelectionToDOM True \<in> set (sync_ops env prev st redraw updateDoc outerDeco innerDeco vw))
     = sync_force env prev st redraw updateDoc vw"
  by (auto simp: sync_ops_def patch_ops_def check_ops_def write_ops_def full_write_def
      split: if_splits)

lemma trace_forced:
  assumes run: "updateStateInner env st rc \<lparr>view = vw, trace = []\<rparr> = (Inr u, s')"
  shows "(SelectionToDOM True \<in> set (trace s')) =
     (needsResync env st rc vw
      \<and> ((needsPatch env st rc vw \<and> kludge_fires env (forcedRebuild st rc vw))
          \<or> contextForcesUpdate env (state vw) st (needsPatch env st rc vw)
               (vw\<lparr>composing := composing vw \<and> storedMarks st = None\<rparr>)))"
proof -
  from updateStateInner_trace [OF run] obtain e where
    tr: "trace s' = prepare_ops env st rc e vw
         @ (if takesSnapshot env st rc vw then [StoreScrollPos] else [])
         @ upd_sync_ops env st rc e vw
         @ plugin_ops (state vw) (view_after_sync env st rc e vw)
         @ upd_scroll_ops env st rc e vw" by blast
  have a: "SelectionToDOM True \<notin> set (prepare_ops env st rc e vw)"
    by (rule not_in_kinds [OF prepare_ops_kinds]) simp
  have c: "SelectionToDOM True \<notin> set (plugin_ops (state vw) (view_after_sync env st rc e vw))"
    by (rule not_in_kinds [OF plugin_ops_kinds]) simp
  have d: "SelectionToDOM True \<notin> set (upd_scroll_ops env st rc e vw)"
    by (rule not_in_kinds [OF upd_scroll_ops_kinds]) simp
  have ctx: "contextForcesUpdate env prev st upd (view_before_sync env st rc e vw)
      = contextForcesUpdate env prev st upd (vw\<lparr>composing := composing vw \<and> storedMarks st = None\<rparr>)"
    for prev upd
    by (simp add: contextForcesUpdate_def)
  have "(SelectionToDOM True \<in> set (trace s')) = (SelectionToDOM True \<in> set (upd_sync_ops env st rc e vw))"
    using a c d by (simp add: tr)
  then show ?thesis
    by (simp add: upd_sync_ops_def forced_write_in_sync sync_force_def ctx)
qed

text \<open>
  C8, as the code has it. In an update that returns and patches the document, on Internet
  Explorer or Chrome, with neither selection empty and no composition active, the selection
  is written with the force flag exactly when \<^verbatim>\<open>selectionContextChanged\<close> holds (the
  ancestors of the two anchors at the smaller of the two shared depths start at different
  positions), or when, on Chrome with a focus node, the patch or the rebuild wrote to the
  node that held the focus.
\<close>

theorem forced_selection_update:
  assumes run: "updateStateInner env st rc \<lparr>view = vw, trace = []\<rparr> = (Inr u, s')"
    and patch: "needsPatch env st rc vw"
    and browser: "browser_ie env \<or> browser_chrome env"
    and old_sel: "\<not> sel_empty (selection (state vw))"
    and new_sel: "\<not> sel_empty (selection st)"
    and not_composing: "\<not> (composing vw \<and> storedMarks st = None)"
  shows "(SelectionToDOM True \<in> set (trace s')) =
     (selectionContextChanged (selection (state vw)) (selection st)
      \<or> (browser_chrome env \<and> focusNode_before env \<noteq> None
          \<and> ((\<not> forcedRebuild st rc vw \<and> update_wrote env)
              \<or> ((forcedRebuild st rc vw \<or> \<not> update_ret env) \<and> docViewDesc_wrote env))))"
proof -
  from patch have "needsResync env st rc vw" by (simp add: needsResync_def)
  with trace_forced [OF run] patch browser old_sel new_sel not_composing show ?thesis
    by (auto simp: contextForcesUpdate_def kludge_fires_def patch_wrote_def patch_rebuilds_def)
qed

lemma ie_env_fields [simp]:
  "raises ie_env = (\<lambda>_. None)"
  "browser_ie ie_env = True"
  "browser_chrome ie_env = False"
  "matchesNode_ret ie_env = False"
  by (simp_all add: ie_env_def)

lemma sel_fields [simp]:
  "sel_empty sel_first = False"
  "sel_empty sel_second = False"
  "sharedDepth (anchor_r sel_first) (sel_head sel_first) = Suc 0"
  "sharedDepth (anchor_r sel_second) (sel_head sel_second) = Suc 0"
  "start (anchor_r sel_first) (Suc 0) = Suc 0"
  "start (anchor_r sel_second) (Suc 0) = 5"
  by (simp_all add: sel_first_def sel_second_def pos_in_first_def pos_in_second_def)

lemma ie_run:
  "updateStateInner ie_env (ex_state\<lparr>selection := sel_second\<rparr>) False \<lparr>view = ex_view, trace = []\<rparr>
     = (Inr (), snd (updateStateInner ie_env (ex_state\<lparr>selection := sel_second\<rparr>) False
                       \<lparr>view = ex_view, trace = []\<rparr>))"
  by (rule run_returns [OF _ ex_editable_any])
     (simp_all add: scroll_result_def scrollMode_def)

theorem forced_selection_update_witness:
  "fst (updateStateInner ie_env (ex_state\<lparr>selection := sel_second\<rparr>) False
          \<lparr>view = ex_view, trace = []\<rparr>) = Inr ()
   \<and> selectionContextChanged sel_first sel_second
   \<and> SelectionToDOM True \<in> set (trace (snd (updateStateInner ie_env
          (ex_state\<lparr>selection := sel_second\<rparr>) False \<lparr>view = ex_view, trace = []\<rparr>)))"
proof -
  have ctx: "selectionContextChanged sel_first sel_second"
    by (simp add: selectionContextChanged_def)
  have "needsPatch ie_env (ex_state\<lparr>selection := sel_second\<rparr>) False ex_view"
    by (simp add: needsPatch_def)
  from forced_selection_update [OF ie_run this] ctx
  have "SelectionToDOM True \<in> set (trace (snd (updateStateInner ie_env
          (ex_state\<lparr>selection := sel_second\<rparr>) False \<lparr>view = ex_view, trace = []\<rparr>)))"
    by simp
  with fst_of_run [OF ie_run] ctx show ?thesis by blast
qed

text \<open>
  C8 as stated fails: the old selection covers the first paragraph and the new one the
  second, so both have shared depth 1, and the selection update is forced all the same.
\<close>

theorem equal_shared_depth_counterexample:
  "fst (updateStateInner ie_env (ex_state\<lparr>selection := sel_second\<rparr>) False
          \<lparr>view = ex_view, trace = []\<rparr>) = Inr ()
   \<and> needsPatch ie_env (ex_state\<lparr>selection := sel_second\<rparr>) False ex_view
   \<and> browser_ie ie_env
   \<and> \<not> sel_empty (selection (state ex_view))
   \<and> \<not> sel_empty sel_second
   \<and> \<not> composing ex_view
   \<and> \<not> shared_depth_differs (selection (state ex_view)) sel_second
   \<and> SelectionToDOM True \<in> set (trace (snd (updateStateInner ie_env
          (ex_state\<lparr>selection := sel_second\<rparr>) False \<lparr>view = ex_view, trace = []\<rparr>)))"
proof -
  have p: "needsPatch ie_env (ex_state\<lparr>selection := sel_second\<rparr>) False ex_view"
    by (simp add: needsPatch_def)
  have "SelectionToDOM True \<in> set (trace (snd (updateStateInner ie_env
          (ex_state\<lparr>selection := sel_second\<rparr>) False \<lparr>view = ex_view, trace = []\<rparr>)))"
    using trace_forced [OF ie_run] p
    by (simp add: needsResync_def contextForcesUpdate_def selectionContextChanged_def)
  with fst_of_run [OF ie_run] p show ?thesis
    by (simp add: shared_depth_differs_def)
qed

section \<open>A failed patch\<close>




section \<open>Where an exception comes from\<close>



























section \<open>The rebuild after a failed patch\<close>


lemma failing_rebuild_env_fields [simp]:
  "raises failing_rebuild_env DocViewDestroy = Some (Thrown 1)"
  "raises failing_rebuild_env (DocViewUpdate d outerDeco innerDeco) = None"
  "raises failing_rebuild_env (UpdateOuterDeco ds) = None"
  "raises failing_rebuild_env ViewDecorations = None"
  "raises failing_rebuild_env (MatchesNode d outerDeco innerDeco) = None"
  "raises failing_rebuild_env StoreScrollPos = None"
  "raises failing_rebuild_env ObserverStop = None"
  "raises failing_rebuild_env GetSelection = None"
  "browser_chrome failing_rebuild_env = True"
  "overflowAnchor failing_rebuild_env = None"
  "matchesNode_ret failing_rebuild_env = False"
  "update_ret failing_rebuild_env = False"
  "update_wrote failing_rebuild_env = False"
  "viewDecorations_ret failing_rebuild_env = 0"
  "focusNode_before failing_rebuild_env = Some 3"
  "storeScrollPos_ret failing_rebuild_env = 5"
  by (simp_all add: failing_rebuild_env_def ex_env_def)





end
